theory Spec2Isabelle
  imports Complex_Main "HOL-Library.Sublist"
begin

section \<open>Strings\<close>

text \<open>
  A JavaScript string is modelled as a \<^typ>\<open>string\<close> whose characters are read as the
  code units U+0000 to U+00FF.  \<open>String.prototype.trim\<close> removes white space and line
  terminators from both ends; in this range these are TAB, LF, VT, FF, CR, SPACE and NBSP.
\<close>

definition isWhiteSpace :: "char \<Rightarrow> bool" where
  "isWhiteSpace c \<longleftrightarrow>
     c \<in> set [CHR 0x09, CHR 0x0A, CHR 0x0B, CHR 0x0C, CHR 0x0D, CHR 0x20, CHR 0xA0]"

definition trim :: "string \<Rightarrow> string" where
  "trim s = rev (dropWhile isWhiteSpace (rev (dropWhile isWhiteSpace s)))"

section \<open>Alert effects\<close>

text \<open>
  The abnormality test of the vitals alert effect:
  \<^verbatim>\<open>heartRate < 60 || heartRate > 100 || oxygenLevel < 95\<close>.
\<close>

definition abnormalReading :: "int \<Rightarrow> int \<Rightarrow> bool" where
  "abnormalReading heartRate oxygenLevel \<longleftrightarrow>
     heartRate < 60 \<or> heartRate > 100 \<or> oxygenLevel < 95"

text \<open>
  The body of the vitals alert effect.  It reads \<open>isLinked\<close>, \<open>emergencyContact\<close>, the two
  vitals and \<open>vitalsAlertShownRef.current\<close>, and returns whether \<open>alert\<close> was called
  together with the new value of the ref.  There is no branch that clears the ref.
\<close>

definition vitalsAlertEffect :: "bool \<Rightarrow> string \<Rightarrow> int \<Rightarrow> int \<Rightarrow> bool \<Rightarrow> bool \<times> bool" where
  "vitalsAlertEffect isLinked emergencyContact heartRate oxygenLevel shown =
     (if isLinked \<and> trim emergencyContact \<noteq> [] \<and> \<not> shown
      then (if abnormalReading heartRate oxygenLevel then (True, True) else (False, shown))
      else (False, shown))"

text \<open>
  The body of the out-of-bounds alert effect: the first \<open>if\<close> may call \<open>alert\<close> and set
  \<open>outOfBoundsAlertShownRef.current\<close>, the second clears the ref when in bounds.
\<close>

definition outOfBoundsAlertEffect :: "string \<Rightarrow> bool \<Rightarrow> bool \<Rightarrow> bool \<times> bool" where
  "outOfBoundsAlertEffect emergencyContact isOutOfBounds shown =
     (let fired = (isOutOfBounds \<and> trim emergencyContact \<noteq> [] \<and> \<not> shown);
          shown1 = (if fired then True else shown);
          shown2 = (if \<not> isOutOfBounds then False else shown1)
      in (fired, shown2))"

text \<open>
  A debouncer run: the effect body applied to a sequence of condition samples with a fixed
  contact, starting from a given ref value.  The result lists, per sample, whether the
  alert fired and the value of the ref afterwards.
\<close>

fun outOfBoundsRun :: "string \<Rightarrow> bool \<Rightarrow> bool list \<Rightarrow> (bool \<times> bool) list" where
  "outOfBoundsRun contact shown [] = []"
| "outOfBoundsRun contact shown (b # bs) =
     (let r = outOfBoundsAlertEffect contact b shown in r # outOfBoundsRun contact (snd r) bs)"

fun vitalsRun :: "string \<Rightarrow> bool \<Rightarrow> (int \<times> int) list \<Rightarrow> (bool \<times> bool) list" where
  "vitalsRun contact shown [] = []"
| "vitalsRun contact shown ((hr, ox) # vs) =
     (let r = vitalsAlertEffect True contact hr ox shown in r # vitalsRun contact (snd r) vs)"

section \<open>Distance\<close>

text \<open>
  \<open>calculateDistance\<close> is modelled in exact real arithmetic, with \<open>None\<close> for a NaN result
  (\<open>Math.sqrt\<close> of a negative number).  The code computes in IEEE doubles, and its result
  differs from the exact one by rounding: it is a small positive number where the exact
  value is zero by \<open>cos (pi / 2) = 0\<close>, it is zero where a difference underflows, and it
  is NaN where rounding takes \<open>a\<close> above one.  What is proved below of the distance is
  used only where the two agree: the distance of a position to itself is zero in both,
  and the boundary state is stated in terms of the number computed, whatever it is.
\<close>

record position =
  lat :: real
  lon :: real

definition atan2 :: "real \<Rightarrow> real \<Rightarrow> real" where
  "atan2 y x =
     (if 0 < x then arctan (y / x)
      else if x < 0 \<and> 0 \<le> y then arctan (y / x) + pi
      else if x < 0 then arctan (y / x) - pi
      else if 0 < y then pi / 2
      else if y < 0 then - (pi / 2)
      else 0)"

text \<open>The value \<open>a\<close> of \<open>calculateDistance\<close>.\<close>

definition haversine :: "real \<Rightarrow> real \<Rightarrow> real \<Rightarrow> real \<Rightarrow> real" where
  "haversine lat1 lon1 lat2 lon2 =
     (let dLat = (lat2 - lat1) * pi / 180;
          dLon = (lon2 - lon1) * pi / 180
      in sin (dLat / 2) * sin (dLat / 2) +
         cos (lat1 * pi / 180) * cos (lat2 * pi / 180) *
         sin (dLon / 2) * sin (dLon / 2))"

definition calculateDistance :: "real \<Rightarrow> real \<Rightarrow> real \<Rightarrow> real \<Rightarrow> real option" where
  "calculateDistance lat1 lon1 lat2 lon2 =
     (let R = 6371;
          a = haversine lat1 lon1 lat2 lon2
      in if a < 0 \<or> 1 - a < 0 then None
         else (let c = 2 * atan2 (sqrt a) (sqrt (1 - a)) in Some (R * c)))"

text \<open>The comparison \<^verbatim>\<open>distance > 5\<close>; it is false when the distance is NaN.\<close>

definition exceeds :: "real option \<Rightarrow> real \<Rightarrow> bool" where
  "exceeds d limit = (case d of None \<Rightarrow> False | Some x \<Rightarrow> limit < x)"

section \<open>The monitoring state of the App component\<close>

datatype alert = VitalsAlert int int string | LocationAlert string

text \<open>
  The state variables and refs of \<open>App\<close> that the monitoring effects use.  \<open>watching\<close>
  says that a \<open>watchPosition\<close> subscription is active; \<open>alerts\<close> logs the calls of \<open>alert\<close>,
  newest first.
\<close>

record app =
  isLinked :: bool
  heartRate :: int
  oxygenLevel :: int
  emergencyContact :: string
  homePosition :: "position option"
  currentPosition :: "position option"
  isOutOfBounds :: bool
  vitalsAlertShownRef :: bool
  outOfBoundsAlertShownRef :: bool
  watching :: bool
  alerts :: "alert list"

definition initialApp :: app where
  "initialApp =
     \<lparr>isLinked = False, heartRate = 0, oxygenLevel = 0, emergencyContact = [],
      homePosition = None, currentPosition = None, isOutOfBounds = False,
      vitalsAlertShownRef = False, outOfBoundsAlertShownRef = False,
      watching = False, alerts = []\<rparr>"

text \<open>
  The success callback of \<open>watchPosition\<close>: the functional update of \<open>homePosition\<close> keeps
  an existing home, takes the new reading as home otherwise, and sets \<open>isOutOfBounds\<close>.
\<close>

definition onPosition :: "position \<Rightarrow> app \<Rightarrow> app" where
  "onPosition newCurrentPos s =
     (let home = (case homePosition s of Some prevHome \<Rightarrow> prevHome | None \<Rightarrow> newCurrentPos);
          distance = calculateDistance (lat home) (lon home) (lat newCurrentPos) (lon newCurrentPos)
      in s\<lparr>currentPosition := Some newCurrentPos,
            homePosition := Some home,
            isOutOfBounds := exceeds distance 5\<rparr>)"

text \<open>The two alert effects on the App state: the effect body, and the alert logged.\<close>

definition runVitalsAlertEffect :: "app \<Rightarrow> app" where
  "runVitalsAlertEffect s =
     (let r = vitalsAlertEffect (isLinked s) (emergencyContact s) (heartRate s) (oxygenLevel s)
                (vitalsAlertShownRef s)
      in s\<lparr>vitalsAlertShownRef := snd r,
            alerts := (if fst r
                       then VitalsAlert (heartRate s) (oxygenLevel s) (emergencyContact s) # alerts s
                       else alerts s)\<rparr>)"

definition runOutOfBoundsAlertEffect :: "app \<Rightarrow> app" where
  "runOutOfBoundsAlertEffect s =
     (let r = outOfBoundsAlertEffect (emergencyContact s) (isOutOfBounds s)
                (outOfBoundsAlertShownRef s)
      in s\<lparr>outOfBoundsAlertShownRef := snd r,
            alerts := (if fst r then LocationAlert (emergencyContact s) # alerts s
                       else alerts s)\<rparr>)"

text \<open>
  The GPS tracking effect, run when \<open>isLinked\<close> has changed: the cleanup of the previous
  run clears the watch; when linked, the effect re-arms the out-of-bounds alert, clears the
  home position and subscribes again.
\<close>

definition runGpsEffect :: "app \<Rightarrow> app" where
  "runGpsEffect s =
     (if \<not> isLinked s then s\<lparr>watching := False\<rparr>
      else s\<lparr>outOfBoundsAlertShownRef := False, homePosition := None, watching := True\<rparr>)"

text \<open>
  One round of effects after a render.  \<open>prev\<close> is the state of the previous render,
  \<open>cur\<close> the state just rendered; an effect runs when one of its dependencies differs,
  in the order of declaration: vitals simulation, vitals alert, GPS tracking, out-of-bounds
  alert.  The effects read the rendered state; the state updates they request
  (\<open>initialVitals\<close> are the readings drawn by the vitals simulation effect, the cleared
  home position) are in the state returned, which is the next render.
\<close>

definition effectsRound :: "app \<Rightarrow> app \<Rightarrow> int \<times> int \<Rightarrow> app" where
  "effectsRound prev cur initialVitals =
     (let linkedChanged = (isLinked prev \<noteq> isLinked cur);
          contactChanged = (emergencyContact prev \<noteq> emergencyContact cur);
          s1 = (if linkedChanged \<and> isLinked cur then cur\<lparr>vitalsAlertShownRef := False\<rparr> else cur);
          s2 = (if linkedChanged \<or> contactChanged \<or> heartRate prev \<noteq> heartRate cur
                   \<or> oxygenLevel prev \<noteq> oxygenLevel cur
                then runVitalsAlertEffect s1 else s1);
          s3 = (if linkedChanged then runGpsEffect s2 else s2);
          s4 = (if contactChanged \<or> isOutOfBounds prev \<noteq> isOutOfBounds cur
                then runOutOfBoundsAlertEffect s3 else s3)
      in if linkedChanged \<and> isLinked cur
         then s4\<lparr>heartRate := fst initialVitals, oxygenLevel := snd initialVitals\<rparr>
         else s4)"

text \<open>
  Rendering until nothing changes: the updates requested in the first round cause one
  more render, whose effects request no update.
\<close>

definition settle :: "app \<Rightarrow> app \<Rightarrow> int \<times> int \<Rightarrow> app" where
  "settle prev cur initialVitals =
     (let next = effectsRound prev cur initialVitals
      in effectsRound cur next initialVitals)"

text \<open>
  The events of the monitoring screen.  Random draws of \<open>Math.random\<close> are carried by the
  event, each a number in \<open>[0, 1)\<close>.  \<open>SetLinked\<close> is \<open>setIsLinked\<close>, \<open>Remount\<close> is a
  logout followed by a login, which unmounts \<open>App\<close> and mounts it with its initial state.
\<close>

datatype event =
    SetLinked bool real real
  | SetContact string
  | Position position
  | Tick real real real
  | SimulateAbnormal real
  | Remount

definition clamp :: "int \<Rightarrow> int \<Rightarrow> int \<Rightarrow> int" where
  "clamp lo hi x = max lo (min hi x)"

fun step :: "app \<Rightarrow> event \<Rightarrow> app" where
  "step s (SetLinked b r1 r2) =
     settle s (s\<lparr>isLinked := b\<rparr>) (\<lfloor>r1 * (95 - 70 + 1)\<rfloor> + 70, \<lfloor>r2 * (100 - 96 + 1)\<rfloor> + 96)"
| "step s (SetContact c) = settle s (s\<lparr>emergencyContact := c\<rparr>) (0, 0)"
| "step s (Position p) = (if watching s then settle s (onPosition p s) (0, 0) else s)"
| "step s (Tick r1 r2 r3) =
     (if isLinked s
      then settle s
             (s\<lparr>heartRate := clamp 50 130 (heartRate s + \<lfloor>r1 * 5\<rfloor> - 2),
                oxygenLevel := clamp 90 100
                  (oxygenLevel s + (if r2 > 0.8 then (if r3 > 0.5 then 1 else - 1) else 0))\<rparr>)
             (0, 0)
      else s)"
| "step s (SimulateAbnormal r) =
     (let s1 = s\<lparr>vitalsAlertShownRef := False\<rparr>
      in settle s (if r > 0.5 then s1\<lparr>heartRate := 125\<rparr> else s1\<lparr>oxygenLevel := 91\<rparr>) (0, 0))"
| "step s Remount = initialApp"

definition run :: "app \<Rightarrow> event list \<Rightarrow> app" where
  "run s evs = foldl step s evs"

text \<open>
  A monitoring session lasts from one change of \<open>isLinked\<close> to the next change or
  remount; its events are the other ones.
\<close>

fun sessionEvent :: "event \<Rightarrow> bool" where
  "sessionEvent (SetLinked b r1 r2) = False"
| "sessionEvent Remount = False"
| "sessionEvent e = True"

fun isPosition :: "event \<Rightarrow> bool" where
  "isPosition (Position p) = True"
| "isPosition e = False"

text \<open>Monitoring is on: the component is linked and subscribed to the position source.\<close>

definition monitoring :: "app \<Rightarrow> bool" where
  "monitoring s \<longleftrightarrow> isLinked s \<and> watching s"

section \<open>Case mapping and searching in strings\<close>

text \<open>
  The letters of the range U+0000 to U+00FF that have an upper-case or lower-case partner
  in that range: the ASCII letters, and the Latin-1 letters U+00E0 to U+00FE other than
  U+00F7, with their capitals 32 code units below.
\<close>

definition lowerLetters :: string where
  "lowerLetters = ''abcdefghijklmnopqrstuvwxyz'' @
     [CHR 0xE0, CHR 0xE1, CHR 0xE2, CHR 0xE3, CHR 0xE4, CHR 0xE5, CHR 0xE6, CHR 0xE7, CHR
       0xE8, CHR 0xE9, CHR 0xEA, CHR 0xEB, CHR 0xEC, CHR 0xED, CHR 0xEE, CHR 0xEF, CHR 0xF0,
       CHR 0xF1, CHR 0xF2, CHR 0xF3, CHR 0xF4, CHR 0xF5, CHR 0xF6, CHR 0xF8, CHR 0xF9, CHR
       0xFA, CHR 0xFB, CHR 0xFC, CHR 0xFD, CHR 0xFE]"

definition upperLetters :: string where
  "upperLetters = ''ABCDEFGHIJKLMNOPQRSTUVWXYZ'' @
     [CHR 0xC0, CHR 0xC1, CHR 0xC2, CHR 0xC3, CHR 0xC4, CHR 0xC5, CHR 0xC6, CHR 0xC7, CHR
       0xC8, CHR 0xC9, CHR 0xCA, CHR 0xCB, CHR 0xCC, CHR 0xCD, CHR 0xCE, CHR 0xCF, CHR 0xD0,
       CHR 0xD1, CHR 0xD2, CHR 0xD3, CHR 0xD4, CHR 0xD5, CHR 0xD6, CHR 0xD8, CHR 0xD9, CHR
       0xDA, CHR 0xDB, CHR 0xDC, CHR 0xDD, CHR 0xDE]"

text \<open>
  \<open>Canonicalize\<close> of a case-insensitive regular expression without the \<open>u\<close> flag: the
  upper-case mapping, where it is one code unit.
\<close>

definition canonicalize :: "char \<Rightarrow> char" where
  "canonicalize c = (case map_of (zip lowerLetters upperLetters) c of Some u \<Rightarrow> u | None \<Rightarrow> c)"

definition toLowerCase :: "string \<Rightarrow> string" where
  "toLowerCase s =
     map (\<lambda>c. case map_of (zip upperLetters lowerLetters) c of Some l \<Rightarrow> l | None \<Rightarrow> c) s"

text \<open>\<open>s.includes(sub)\<close>: \<open>sub\<close> occurs in \<open>s\<close> as a contiguous substring.\<close>

fun includesStr :: "string \<Rightarrow> string \<Rightarrow> bool" where
  "includesStr [] sub = (sub = [])"
| "includesStr (c # cs) sub = (prefix sub (c # cs) \<or> includesStr cs sub)"

definition isLineTerminator :: "char \<Rightarrow> bool" where
  "isLineTerminator c \<longleftrightarrow> c = CHR 0x0A \<or> c = CHR 0x0D"

section \<open>Regular expressions\<close>

text \<open>
  The fragment of the regular expression syntax that \<open>hospitalBlockRegex\<close> is written in:
  a character that matches itself, an identity escape, and the lazily repeated class
  \<^verbatim>\<open>[\s\S]*?\<close>, which matches any character.
\<close>

datatype token = Lit char | LazyAnyStar

definition backslash :: char where
  "backslash = CHR 0x5C"

definition syntaxCharacters :: string where
  "syntaxCharacters = ''^$'' @ [backslash] @ ''.*+?()[]{}|''"

text \<open>The characters of the class \<^verbatim>\<open>[-\/\\^$*+?.()|[\]{}]\<close> that the name is escaped with.\<close>

definition escapedCharacters :: string where
  "escapedCharacters = ''-/'' @ [backslash] @ ''^$*+?.()|[]{}''"

text \<open>\<^verbatim>\<open>name.replace(/[-\/\\^$*+?.()|[\]{}]/g, '\\$&')\<close>\<close>

definition escapeRegExp :: "string \<Rightarrow> string" where
  "escapeRegExp name =
     concat (map (\<lambda>c. if c \<in> set escapedCharacters then [backslash, c] else [c]) name)"

definition anyClassLazy :: string where
  "anyClassLazy = [backslash] @ ''s'' @ [backslash] @ ''S]*?''"

text \<open>
  \<open>new RegExp(source, 'i')\<close> on the fragment.  The result is \<open>None\<close> for a source outside
  the fragment, which includes every source that JavaScript rejects with a SyntaxError.
\<close>

fun compilePattern :: "string \<Rightarrow> token list option" where
  "compilePattern [] = Some []"
| "compilePattern (c # cs) =
     (if c = backslash then
        (case cs of
           [] \<Rightarrow> None
         | e # rest \<Rightarrow>
             if e \<in> set escapedCharacters
             then map_option ((#) (Lit e)) (compilePattern rest) else None)
      else if c = CHR ''['' then
        (if prefix anyClassLazy cs
         then map_option ((#) LazyAnyStar) (compilePattern (drop (length anyClassLazy) cs))
         else None)
      else if c \<in> set syntaxCharacters then None
      else map_option ((#) (Lit c)) (compilePattern cs))"

text \<open>
  The backtracking matcher at a fixed start: the matched text, if any.  A lazy repetition
  first tries to go on without consuming a character.
\<close>

fun matchHere :: "token list \<Rightarrow> string \<Rightarrow> string option" where
  "matchHere [] s = Some []"
| "matchHere (Lit c # ts) [] = None"
| "matchHere (Lit c # ts) (x # xs) =
     (if canonicalize x = canonicalize c then map_option ((#) x) (matchHere ts xs) else None)"
| "matchHere (LazyAnyStar # ts) [] = matchHere ts []"
| "matchHere (LazyAnyStar # ts) (x # xs) =
     (case matchHere ts (x # xs) of
        Some m \<Rightarrow> Some m
      | None \<Rightarrow> map_option ((#) x) (matchHere (LazyAnyStar # ts) xs))"

text \<open>\<open>text.match(regex)\<close> for a regex without the \<open>g\<close> flag: the match at the least start index.\<close>

fun regexSearch :: "token list \<Rightarrow> string \<Rightarrow> string option" where
  "regexSearch ts [] = matchHere ts []"
| "regexSearch ts (x # xs) =
     (case matchHere ts (x # xs) of Some m \<Rightarrow> Some m | None \<Rightarrow> regexSearch ts xs)"

text \<open>
  \<open>block.match(/LABEL(.*)/i)[1]\<close>: the text after the first occurrence of the label, up to
  the end of the line; \<open>None\<close> when the label does not occur.
\<close>

definition startsWithCI :: "string \<Rightarrow> string \<Rightarrow> bool" where
  "startsWithCI label s \<longleftrightarrow>
     length label \<le> length s \<and>
     map canonicalize (take (length label) s) = map canonicalize label"

fun captureAfter :: "string \<Rightarrow> string \<Rightarrow> string option" where
  "captureAfter label [] = (if label = [] then Some [] else None)"
| "captureAfter label (c # cs) =
     (if startsWithCI label (c # cs)
      then Some (takeWhile (\<lambda>x. \<not> isLineTerminator x) (drop (length label) (c # cs)))
      else captureAfter label cs)"

section \<open>Reconciling the hospital list with the narrative\<close>

record hit =
  name :: string
  uri :: string

record hospital = hit +
  bestDoctor :: string
  rating :: string
  contact :: string

definition randomDoctorNames :: "string list" where
  "randomDoctorNames =
     [''Dr. Emily Carter'', ''Dr. Benjamin Hayes'', ''Dr. Olivia Chen'',
      ''Dr. Jacob Rodriguez'', ''Dr. Sophia Williams'', ''Dr. Michael Johnson'',
      ''Dr. Isabella Martinez'', ''Dr. William Davis'']"

fun decimalDigits :: "nat \<Rightarrow> string" where
  "decimalDigits n =
     (if n < 10 then [''0123456789'' ! n]
      else decimalDigits (n div 10) @ [''0123456789'' ! (n mod 10)])"

text \<open>
  \<open>x.toFixed(1)\<close> for \<open>\<bar>x\<bar> < 10\<^sup>2\<^sup>1\<close>: the integer \<open>n\<close> nearest to \<open>10 x\<close>, the larger one
  of two, printed with one digit after the point.
\<close>

definition toFixed1 :: "real \<Rightarrow> string" where
  "toFixed1 x =
     (let n = nat \<lfloor>\<bar>x\<bar> * 10 + 1 / 2\<rfloor>
      in (if x < 0 then ''-'' else []) @ decimalDigits (n div 10) @ ''.'' @ decimalDigits (n mod 10))"

text \<open>
  \<open>generateRandomRating\<close>, given the value of its variable \<open>rating\<close>.  That value is the
  result of \<^verbatim>\<open>Math.random() * (5.0 - 3.8) + 3.8\<close> in double arithmetic, which is not
  modelled: with a draw in \<open>[0, 1)\<close> it lies between the doubles nearest to 3.8 and to 5.
\<close>

definition generateRandomRating :: "real \<Rightarrow> string" where
  "generateRandomRating ratingValue = toFixed1 ratingValue @ ''/5 stars''"

definition hospitalBlockSource :: "string \<Rightarrow> string" where
  "hospitalBlockSource hospitalName =
     ''HOSPITAL: '' @ escapeRegExp hospitalName @ ''['' @ anyClassLazy @ ''---''"

text \<open>
  \<open>resultText.match(hospitalBlockRegex)\<close>: \<open>None\<close> when the regular expression cannot be
  built, \<open>Some None\<close> when there is no match, \<open>Some (Some block)\<close> for the matched block.
\<close>

definition matchHospitalBlock :: "string \<Rightarrow> string \<Rightarrow> string option option" where
  "matchHospitalBlock hospitalName resultText =
     map_option (\<lambda>hospitalBlockRegex. regexSearch hospitalBlockRegex resultText)
       (compilePattern (hospitalBlockSource hospitalName))"

text \<open>The text that opens the block of a hospital, and the text that ends a block.\<close>

definition header :: "string \<Rightarrow> string" where
  "header hospitalName = ''HOSPITAL: '' @ hospitalName"

definition sentinel :: string where
  "sentinel = ''---''"

text \<open>
  The regular expression that \<open>hospitalBlockSource\<close> denotes: the header with the name,
  each character for itself, any text, and the sentinel.
\<close>

definition blockTokens :: "string \<Rightarrow> token list" where
  "blockTokens hospitalName = map Lit (header hospitalName) @ LazyAnyStar # map Lit sentinel"

text \<open>
  A block of the hospital starts at the beginning of \<open>s\<close>: \<open>s\<close> begins with the header and
  the name, in any case, and a sentinel follows somewhere after them.
\<close>

definition blockStartsAt :: "string \<Rightarrow> string \<Rightarrow> bool" where
  "blockStartsAt hospitalName s \<longleftrightarrow>
     startsWithCI (header hospitalName) s \<and>
     includesStr (drop (length (header hospitalName)) s) sentinel"

text \<open>The value of one field of the matched block, trimmed; empty without a block or a label.\<close>

definition fieldOf :: "string \<Rightarrow> string option \<Rightarrow> string" where
  "fieldOf label match =
     (case match of
        None \<Rightarrow> []
      | Some block \<Rightarrow> (case captureAfter label block of None \<Rightarrow> [] | Some v \<Rightarrow> trim v))"

definition needsContactFallback :: "string \<Rightarrow> bool" where
  "needsContactFallback c \<longleftrightarrow>
     c = [] \<or> includesStr (toLowerCase c) ''not specified''
            \<or> includesStr (toLowerCase c) ''not available''"

definition needsDoctorFallback :: "string \<Rightarrow> bool" where
  "needsDoctorFallback d \<longleftrightarrow> d = [] \<or> includesStr (toLowerCase d) ''not specified''"

definition needsRatingFallback :: "string \<Rightarrow> bool" where
  "needsRatingFallback r \<longleftrightarrow> r = [] \<or> includesStr (toLowerCase r) ''not available''"

text \<open>
  The callback of \<open>hospitalGroundingData.map\<close> for one hit, given the result of the block
  match and the value \<open>r\<close> that the next call of \<open>generateRandomRating\<close> computes; the flag
  says whether that call was made.
\<close>

definition enrich :: "nat \<Rightarrow> hit \<Rightarrow> string option \<Rightarrow> real \<Rightarrow> hospital \<times> bool" where
  "enrich index h match r =
     (let contact0 = fieldOf ''CONTACT: '' match;
          bestDoctor0 = fieldOf ''BEST DOCTOR: '' match;
          rating0 = fieldOf ''RATING: '' match;
          contact1 = (if needsContactFallback contact0 then ''Not Available'' else contact0);
          bestDoctor1 = (if needsDoctorFallback bestDoctor0
                         then randomDoctorNames ! (index mod length randomDoctorNames)
                         else bestDoctor0);
          rating1 = (if needsRatingFallback rating0 then generateRandomRating r else rating0)
      in (\<lparr>name = name h, uri = uri h,
            bestDoctor = bestDoctor1, rating = rating1, contact = contact1\<rparr>,
          needsRatingFallback rating0))"

text \<open>
  \<open>resultText.match(hospitalBlockRegex)\<close> in the callback.  \<open>resultText\<close> is
  \<open>response.text\<close>, which is \<open>None\<close> when the response has no text (\<open>undefined\<close>); the call
  then throws a TypeError, as building the regular expression may throw.  The result
  is \<open>None\<close> for an exception.
\<close>

definition matchResponse :: "string \<Rightarrow> string option \<Rightarrow> string option option" where
  "matchResponse hospitalName resultText =
     (case compilePattern (hospitalBlockSource hospitalName) of
        None \<Rightarrow> None
      | Some hospitalBlockRegex \<Rightarrow>
          (case resultText of
             None \<Rightarrow> None
           | Some narrative \<Rightarrow> Some (regexSearch hospitalBlockRegex narrative)))"

text \<open>
  The whole \<open>map\<close>, from index \<open>index\<close> on.  \<open>rnd\<close> is the sequence of the values that
  the calls of \<open>generateRandomRating\<close> compute and \<open>k\<close> the number of calls made so far.
  The result is \<open>None\<close> when the callback throws, which leaves the \<open>map\<close>.
\<close>

fun parsedHospitals ::
    "nat \<Rightarrow> hit list \<Rightarrow> string option \<Rightarrow> (nat \<Rightarrow> real) \<Rightarrow> nat \<Rightarrow> hospital list option" where
  "parsedHospitals index [] resultText rnd k = Some []"
| "parsedHospitals index (h # hs) resultText rnd k =
     (case matchResponse (name h) resultText of
        None \<Rightarrow> None
      | Some match \<Rightarrow>
          (let (e, used) = enrich index h match (rnd k)
           in map_option ((#) e)
                (parsedHospitals (index + 1) hs resultText rnd (if used then k + 1 else k))))"

record finder =
  hospitals :: "hospital list"
  hospitalError :: string
  isFindingHospitals :: bool

definition noHospitalsMessage :: string where
  "noHospitalsMessage = ''Could not find any suitable hospitals nearby based on the information provided. Please try adjusting your budget or try again later.''"

definition searchFailedMessage :: string where
  "searchFailedMessage = ''An error occurred while searching for hospitals. Please try again.''"

definition locationFailedMessage :: string where
  "locationFailedMessage = ''Could not get your location. Please enable location services in your browser settings to find nearby hospitals.''"

definition budgetMissingMessage :: string where
  "budgetMissingMessage = ''Please enter your estimated budget, or skip this step.''"

text \<open>
  The part of \<open>handleFindHospitals\<close> that runs on the response, from the state that the
  handler has set before the request: the grounding hits, the response text and the
  generated ratings give the hospital list or the error message.  An exception in the
  \<open>map\<close> is caught, and leaves the empty list with the message of a failed search.  The
  names of the hits are strings, as the type \<open>Hospital\<close> declares them.
\<close>

definition reconcile :: "hit list \<Rightarrow> string option \<Rightarrow> (nat \<Rightarrow> real) \<Rightarrow> finder" where
  "reconcile hospitalGroundingData resultText rnd =
     (let s = \<lparr>hospitals = [], hospitalError = [], isFindingHospitals = True\<rparr>;
          s1 = (if length hospitalGroundingData = 0 then s\<lparr>hospitalError := noHospitalsMessage\<rparr>
                else (case parsedHospitals 0 hospitalGroundingData resultText rnd 0 of
                        Some hs \<Rightarrow> s\<lparr>hospitals := hs\<rparr>
                      | None \<Rightarrow> s\<lparr>hospitalError := searchFailedMessage\<rparr>))
      in s1\<lparr>isFindingHospitals := False\<rparr>)"

datatype searchOutcome =
    LocationFailed
  | RequestFailed
  | Response "hit list" "string option"

definition handleFindHospitals ::
    "bool \<Rightarrow> string \<Rightarrow> finder \<Rightarrow> searchOutcome \<Rightarrow> (nat \<Rightarrow> real) \<Rightarrow> finder" where
  "handleFindHospitals skipBudget budget s outcome rnd =
     (if \<not> skipBudget \<and> trim budget = [] then s\<lparr>hospitalError := budgetMissingMessage\<rparr>
      else (case outcome of
              LocationFailed \<Rightarrow>
                \<lparr>hospitals = [], hospitalError = locationFailedMessage, isFindingHospitals = False\<rparr>
            | RequestFailed \<Rightarrow>
                \<lparr>hospitals = [], hospitalError = searchFailedMessage, isFindingHospitals = False\<rparr>
            | Response hospitalGroundingData resultText \<Rightarrow>
                reconcile hospitalGroundingData resultText rnd))"

text \<open>Generated ratings that all have the value \<open>r\<close>.\<close>

definition constantRatings :: "real \<Rightarrow> nat \<Rightarrow> real" where
  "constantRatings r k = r"

text \<open>
  Containing a phrase in any letter case, in the words of the claims: \<open>s\<close> has a part \<open>w\<close>
  that is the phrase letter by letter, each letter in its lower-case or in its upper-case
  form.  The phrase is given in both forms.
\<close>

definition spelled :: "string \<Rightarrow> string \<Rightarrow> string \<Rightarrow> bool" where
  "spelled w lower upper \<longleftrightarrow> list_all2 (\<lambda>x (l, u). x = l \<or> x = u) w (zip lower upper)"

definition mentions :: "string \<Rightarrow> string \<Rightarrow> string \<Rightarrow> bool" where
  "mentions s lower upper \<longleftrightarrow> (\<exists>pre w post. s = pre @ w @ post \<and> spelled w lower upper)"

text \<open>The pattern \<^verbatim>\<open>/^[0-9]\.[0-9]\/5 stars$/\<close> of a rating label.\<close>

definition isDigit :: "char \<Rightarrow> bool" where
  "isDigit c \<longleftrightarrow> c \<in> set ''0123456789''"

definition ratingPattern :: "string \<Rightarrow> bool" where
  "ratingPattern s =
     (case s of
        a # b # c # rest \<Rightarrow> isDigit a \<and> b = CHR ''.'' \<and> isDigit c \<and> rest = ''/5 stars''
      | _ \<Rightarrow> False)"

text \<open>
  An example: two hits, and a narrative whose first block gives the three fields and
  whose second block gives the phrases that stand for a missing field.
\<close>

definition exampleHits :: "hit list" where
  "exampleHits = [\<lparr>name = ''Alpha'', uri = ''u1''\<rparr>, \<lparr>name = ''Beta'', uri = ''u2''\<rparr>]"

definition exampleNarrative :: string where
  "exampleNarrative =
     ''HOSPITAL: Alpha\<newline>CONTACT: 555-1234\<newline>BEST DOCTOR: Dr. Test\<newline>RATING: 4.2/5 stars\<newline>---\<newline>'' @
     ''HOSPITAL: Beta\<newline>CONTACT: Number NOT Specified\<newline>BEST DOCTOR: Not Specified\<newline>RATING: NOT AVAILABLE\<newline>---''"

section \<open>Financial aid\<close>

text \<open>
  The value that \<open>JSON.parse\<close> returns.  The response of the request is the failure of the
  request, a text that \<open>JSON.parse\<close> rejects, or the parsed value.
\<close>

datatype json =
    JNull
  | JBool bool
  | JNumber real
  | JString string
  | JArray "json list"
  | JObject "(string \<times> json) list"

datatype aidResponse = AidRequestFailed | AidSyntaxError | AidParsed json

record aid =
  financialAidQuery :: string
  financialAidInfo :: json
  financialAidError :: string
  isFindingFinancialAid :: bool

definition aidQueryMissingMessage :: string where
  "aidQueryMissingMessage = ''Please describe the type of help you need.''"

definition aidFailedMessage :: string where
  "aidFailedMessage = ''Sorry, I could not retrieve financial aid information at this time. Please try again later.''"

definition handleFindFinancialAid :: "aid \<Rightarrow> aidResponse \<Rightarrow> aid" where
  "handleFindFinancialAid s response =
     (if trim (financialAidQuery s) = [] then s\<lparr>financialAidError := aidQueryMissingMessage\<rparr>
      else (let s1 = s\<lparr>financialAidError := [], financialAidInfo := JArray [],
                        isFindingFinancialAid := True\<rparr>;
                s2 = (case response of
                        AidParsed aidOptions \<Rightarrow> s1\<lparr>financialAidInfo := aidOptions\<rparr>
                      | _ \<Rightarrow> s1\<lparr>financialAidError := aidFailedMessage\<rparr>)
            in s2\<lparr>isFindingFinancialAid := False\<rparr>))"

text \<open>
  The record check in the words of the specification: an object that carries the four
  fields as non-empty strings.
\<close>

definition nonEmptyStringField :: "(string \<times> json) list \<Rightarrow> string \<Rightarrow> bool" where
  "nonEmptyStringField members key =
     (case map_of members key of Some (JString v) \<Rightarrow> v \<noteq> [] | _ \<Rightarrow> False)"

definition validAidRecord :: "json \<Rightarrow> bool" where
  "validAidRecord j =
     (case j of
        JObject members \<Rightarrow>
          nonEmptyStringField members ''schemeName'' \<and> nonEmptyStringField members ''description''
          \<and> nonEmptyStringField members ''howToAccess'' \<and> nonEmptyStringField members ''websiteLink''
      | _ \<Rightarrow> False)"

text \<open>A state of the financial aid screen with a query entered and no result yet.\<close>

definition exampleQuery :: aid where
  "exampleQuery = \<lparr>financialAidQuery = ''dialysis'', financialAidInfo = JArray [],
     financialAidError = [], isFindingFinancialAid = False\<rparr>"

section \<open>The alert effects as debouncers\<close>

lemma outOfBoundsAlertEffect_contact:
  "trim c \<noteq> [] \<Longrightarrow> outOfBoundsAlertEffect c b shown = (b \<and> \<not> shown, b)"
  by (auto simp: outOfBoundsAlertEffect_def Let_def)

lemma outOfBoundsAlertEffect_blank:
  "trim c = [] \<Longrightarrow> outOfBoundsAlertEffect c b shown = (False, b \<and> shown)"
  by (auto simp: outOfBoundsAlertEffect_def Let_def)

lemma vitalsAlertEffect_contact:
  "trim c \<noteq> [] \<Longrightarrow>
   vitalsAlertEffect True c hr ox shown = (abnormalReading hr ox \<and> \<not> shown, shown \<or> abnormalReading hr ox)"
  by (auto simp: vitalsAlertEffect_def)

lemma vitalsAlertEffect_blank:
  "trim c = [] \<Longrightarrow> vitalsAlertEffect linked c hr ox shown = (False, shown)"
  by (auto simp: vitalsAlertEffect_def)

lemma outOfBoundsRun_contact:
  "trim c1 \<noteq> [] \<Longrightarrow> trim c2 \<noteq> [] \<Longrightarrow> outOfBoundsRun c1 sh bs = outOfBoundsRun c2 sh bs"
  by (induction bs arbitrary: sh) (simp_all add: outOfBoundsAlertEffect_contact)

lemma vitalsRun_contact:
  "trim c1 \<noteq> [] \<Longrightarrow> trim c2 \<noteq> [] \<Longrightarrow> vitalsRun c1 sh vs = vitalsRun c2 sh vs"
  by (induction vs arbitrary: sh) (auto simp: vitalsAlertEffect_contact)

lemma outOfBoundsRun_blank:
  "trim c = [] \<Longrightarrow> r \<in> set (outOfBoundsRun c sh bs) \<Longrightarrow> \<not> fst r \<and> (snd r \<longrightarrow> sh)"
  by (induction bs arbitrary: sh) (auto simp: outOfBoundsAlertEffect_blank)

lemma vitalsRun_blank:
  "trim c = [] \<Longrightarrow> r \<in> set (vitalsRun c sh vs) \<Longrightarrow> r = (False, sh)"
  by (induction vs arbitrary: sh) (auto simp: vitalsAlertEffect_blank)

text \<open>
  With a contact, the out-of-bounds alert fires exactly on the samples that are out of
  bounds while the one before was in bounds, and the ref follows the sample.
\<close>
lemma outOfBoundsRun_edges:
  "trim c \<noteq> [] \<Longrightarrow> i < length bs \<Longrightarrow>
   outOfBoundsRun c sh bs ! i = (bs ! i \<and> \<not> (if i = 0 then sh else bs ! (i - 1)), bs ! i)"
proof (induction bs arbitrary: sh i)
  case Nil then show ?case by simp
next
  case (Cons b bs)
  show ?case
  proof (cases i)
    case 0 then show ?thesis using Cons.prems by (simp add: outOfBoundsAlertEffect_contact)
  next
    case (Suc j)
    then show ?thesis using Cons.prems Cons.IH[of j b]
      by (cases j) (simp_all add: outOfBoundsAlertEffect_contact)
  qed
qed

lemma length_outOfBoundsRun: "length (outOfBoundsRun c sh bs) = length bs"
  by (induction bs arbitrary: sh) (simp_all add: Let_def)

lemma trim_911: "trim ''911'' \<noteq> []"
  by (simp add: trim_def isWhiteSpace_def)

lemma outOfBounds_example:
  "map fst (outOfBoundsRun ''911'' False [False, True, True, False, True])
     = [False, True, False, False, True]"
  by (simp add: outOfBoundsAlertEffect_contact [OF trim_911] Let_def)

text \<open>
  Claim C1.  A debouncer fires at most once per run of abnormal samples and re-arms on the
  first normal sample, so that the samples normal, abnormal, abnormal, normal, abnormal
  fire on the second and on the fifth.  The out-of-bounds alert effect does so
  (\<open>outOfBounds_example\<close>, \<open>outOfBoundsRun_edges\<close>).  The vitals alert effect never
  clears its ref on a normal reading: on these samples it fires on the second only.
\<close>

theorem vitals_alert_not_rearmed:
  "map fst (vitalsRun ''911'' False [(80, 98), (120, 98), (120, 98), (80, 98), (120, 98)])
     = [False, True, False, False, False]"
  by (simp add: vitalsAlertEffect_contact [OF trim_911] abnormalReading_def)

text \<open>
  Claim C2, as stated: the trace of the armed flag does not depend on the emergency
  contact.  It does: with an empty contact an out-of-bounds sample leaves the ref clear,
  with the contact 911 it sets it.
\<close>

theorem armed_flag_counterexample:
  "map snd (outOfBoundsRun [] False [True]) \<noteq> map snd (outOfBoundsRun ''911'' False [True])"
  by (simp add: outOfBoundsAlertEffect_def trim_def isWhiteSpace_def)

lemma outOfBoundsRun_blank_flags:
  "trim c = [] \<Longrightarrow> map snd (outOfBoundsRun c False bs) = map (\<lambda>b. False) bs"
  by (induction bs) (simp_all add: outOfBoundsAlertEffect_blank)

lemma outOfBoundsRun_contact_flags:
  "trim c \<noteq> [] \<Longrightarrow> map snd (outOfBoundsRun c sh bs) = bs"
  by (induction bs arbitrary: sh) (simp_all add: outOfBoundsAlertEffect_contact)

lemma all_False_iff: "map (\<lambda>b. False) bs = bs \<longleftrightarrow> True \<notin> set bs"
  by (induction bs) auto

lemma vitalsRun_blank_flags:
  "trim c = [] \<Longrightarrow> map snd (vitalsRun c False vs) = map (\<lambda>v. False) vs"
  by (induction vs) (auto simp: vitalsAlertEffect_blank)

lemma vitalsRun_contact_flags:
  "trim c \<noteq> [] \<Longrightarrow>
   map snd (vitalsRun c False vs) = map (\<lambda>v. False) vs
     \<longleftrightarrow> \<not> list_ex (\<lambda>(hr, ox). abnormalReading hr ox) vs"
proof (induction vs)
  case Nil
  show ?case by simp
next
  case (Cons v vs)
  obtain hr ox where v: "v = (hr, ox)" by (cases v)
  show ?case
  proof (cases "abnormalReading hr ox")
    case True
    then show ?thesis using Cons.prems by (simp add: v vitalsAlertEffect_contact)
  next
    case False
    then show ?thesis using Cons by (simp add: v vitalsAlertEffect_contact)
  qed
qed

text \<open>
  Claim C2, amended.  The contact matters only through being blank or not: two runs with
  non-blank contacts fire alike and have the same ref values, for both effects; with a
  blank contact nothing fires and the ref is never set, so that the alert stays pending.
  From a clear ref, the ref values of a run with a blank contact and of a run with a
  non-blank one are therefore the same exactly when no sample of the run is active.
\<close>

theorem armed_flag_contact:
  "(trim c1 \<noteq> [] \<and> trim c2 \<noteq> [] \<longrightarrow>
      outOfBoundsRun c1 sh bs = outOfBoundsRun c2 sh bs \<and> vitalsRun c1 sh vs = vitalsRun c2 sh vs)
   \<and> (trim c = [] \<longrightarrow>
        (\<forall>r \<in> set (outOfBoundsRun c sh bs). \<not> fst r \<and> (snd r \<longrightarrow> sh))
      \<and> (\<forall>r \<in> set (vitalsRun c sh vs). \<not> fst r \<and> snd r = sh))
   \<and> (trim c = [] \<and> trim c1 \<noteq> [] \<longrightarrow>
        (map snd (outOfBoundsRun c False bs) = map snd (outOfBoundsRun c1 False bs)
           \<longleftrightarrow> True \<notin> set bs)
      \<and> (map snd (vitalsRun c False vs) = map snd (vitalsRun c1 False vs)
           \<longleftrightarrow> \<not> list_ex (\<lambda>(hr, ox). abnormalReading hr ox) vs))"
proof -
  have 1: "outOfBoundsRun c1 sh bs = outOfBoundsRun c2 sh bs"
    if "trim c1 \<noteq> []" "trim c2 \<noteq> []"
    using that by (rule outOfBoundsRun_contact)
  have 2: "vitalsRun c1 sh vs = vitalsRun c2 sh vs"
    if "trim c1 \<noteq> []" "trim c2 \<noteq> []"
    using that by (rule vitalsRun_contact)
  have 3: "\<not> fst r \<and> (snd r \<longrightarrow> sh)" if "trim c = []" "r \<in> set (outOfBoundsRun c sh bs)" for r
    using that by (rule outOfBoundsRun_blank)
  have 4: "\<not> fst r \<and> snd r = sh" if "trim c = []" "r \<in> set (vitalsRun c sh vs)" for r
    using vitalsRun_blank [OF that] by simp
  have 5: "map snd (outOfBoundsRun c False bs) = map snd (outOfBoundsRun c1 False bs)
             \<longleftrightarrow> True \<notin> set bs"
    if "trim c = []" "trim c1 \<noteq> []"
    unfolding outOfBoundsRun_blank_flags [OF that(1)] outOfBoundsRun_contact_flags [OF that(2)]
    by (rule all_False_iff)
  have 6: "map snd (vitalsRun c False vs) = map snd (vitalsRun c1 False vs)
             \<longleftrightarrow> \<not> list_ex (\<lambda>(hr, ox). abnormalReading hr ox) vs"
    if "trim c = []" "trim c1 \<noteq> []"
    unfolding vitalsRun_blank_flags [OF that(1)]
    using vitalsRun_contact_flags [OF that(2), of vs] by auto
  show ?thesis using 1 2 3 4 5 6 by blast
qed

theorem armed_flag_contact_witness:
  "trim ''911'' \<noteq> [] \<and> trim ''112'' \<noteq> [] \<and> trim '' '' = []
   \<and> outOfBoundsRun ''911'' False [False, True] = outOfBoundsRun ''112'' False [False, True]
   \<and> vitalsRun ''911'' False [(120, 98)] = vitalsRun ''112'' False [(120, 98)]
   \<and> list_all (\<lambda>r. \<not> fst r \<and> \<not> snd r) (outOfBoundsRun '' '' False [False, True])
   \<and> list_all (\<lambda>r. \<not> fst r \<and> \<not> snd r) (vitalsRun '' '' False [(120, 98)])
   \<and> map snd (outOfBoundsRun '' '' False [False, True])
       \<noteq> map snd (outOfBoundsRun ''911'' False [False, True])
   \<and> map snd (vitalsRun '' '' False [(120, 98)]) \<noteq> map snd (vitalsRun ''911'' False [(120, 98)])"
proof -
  have a: "trim ''911'' \<noteq> [] \<and> trim ''112'' \<noteq> []" and b: "trim '' '' = []"
    and a1: "trim ''911'' \<noteq> []"
    by (simp_all add: trim_def isWhiteSpace_def)
  note t = armed_flag_contact [of "''911''" "''112''" False "[False, True]" "[(120, 98)]" "'' ''"]
  from t a have 1: "outOfBoundsRun ''911'' False [False, True] = outOfBoundsRun ''112'' False [False, True]
      \<and> vitalsRun ''911'' False [(120, 98)] = vitalsRun ''112'' False [(120, 98)]"
    by (rule conjunct1 [THEN mp])
  from t b have 2: "(\<forall>r \<in> set (outOfBoundsRun '' '' False [False, True]). \<not> fst r \<and> (snd r \<longrightarrow> False))
      \<and> (\<forall>r \<in> set (vitalsRun '' '' False [(120, 98)]). \<not> fst r \<and> snd r = False)"
    by (rule conjunct2 [THEN conjunct1, THEN mp])
  from 2 have 3: "list_all (\<lambda>r. \<not> fst r \<and> \<not> snd r) (outOfBoundsRun '' '' False [False, True])"
    and 4: "list_all (\<lambda>r. \<not> fst r \<and> \<not> snd r) (vitalsRun '' '' False [(120, 98)])"
    unfolding list_all_iff by blast+
  from b a1 have ba: "trim '' '' = [] \<and> trim ''911'' \<noteq> []" by (rule conjI)
  note d = t [THEN conjunct2, THEN conjunct2, THEN mp, OF ba]
  from d have 5: "map snd (outOfBoundsRun '' '' False [False, True])
       \<noteq> map snd (outOfBoundsRun ''911'' False [False, True])"
    by (simp only: conjunct1 [OF d]) simp
  from d have 6: "map snd (vitalsRun '' '' False [(120, 98)])
       \<noteq> map snd (vitalsRun ''911'' False [(120, 98)])"
    by (simp only: conjunct2 [OF d]) (simp add: abnormalReading_def)
  from a b 1 3 4 5 6 show ?thesis
    apply (elim conjE)
    apply (intro conjI)
            apply assumption+
    done
qed

section \<open>Properties of the distance\<close>

lemma haversine_same: "haversine la lo la lo = 0"
  by (simp add: haversine_def)

lemma atan2_zero: "atan2 0 1 = 0"
  by (simp add: atan2_def)

lemma calculateDistance_same: "calculateDistance la lo la lo = Some 0"
  by (simp add: calculateDistance_def haversine_same atan2_zero)

lemma atan2_sin_cos: "0 \<le> x \<Longrightarrow> x \<le> pi / 2 \<Longrightarrow> atan2 (sin x) (cos x) = x"
proof (cases "x = pi / 2")
  case True
  show ?thesis unfolding True by (simp add: atan2_def)
next
  case False
  assume "0 \<le> x" "x \<le> pi / 2"
  with False have b: "- (pi / 2) < x" "x < pi / 2" using pi_gt_zero by linarith+
  then have c: "0 < cos x" by (rule cos_gt_zero_pi)
  have "arctan (sin x / cos x) = x"
    using arctan_tan [OF b] by (simp add: tan_def)
  with c show ?thesis by (simp add: atan2_def)
qed

lemma distance_north:
  assumes "0 \<le> d" "d \<le> 6371 * pi"
  shows "calculateDistance 0 0 (d * 180 / (6371 * pi)) 0 = Some d"
proof -
  define x where "x = d / 12742"
  have x: "0 \<le> x" "x \<le> pi / 2" using assms by (simp_all add: x_def)
  have e: "(d * 180 / (6371 * pi) - 0) * pi / 180 / 2 = x"
    by (simp add: x_def)
  have h: "haversine 0 0 (d * 180 / (6371 * pi)) 0 = sin x * sin x"
    unfolding haversine_def Let_def e by simp
  have s: "0 \<le> sin x" using x pi_gt_zero by (intro sin_ge_zero) linarith+
  have c: "0 \<le> cos x" using x by (intro cos_ge_zero) linarith+
  have 1: "sqrt (sin x * sin x) = sin x" using s by simp
  have "1 - sin x * sin x = cos x * cos x"
    using sin_cos_squared_add [of x] by (simp add: power2_eq_square algebra_simps)
  then have 2: "sqrt (1 - sin x * sin x) = cos x" using c by simp
  have 3: "sin x * sin x \<le> 1"
    using sin_cos_squared_add [of x] by (simp add: power2_eq_square) (smt (verit) zero_le_square)
  show ?thesis
    unfolding calculateDistance_def Let_def h 1 2
    using 3 s atan2_sin_cos [OF x] by (simp add: x_def)
qed

section \<open>Properties of the monitoring effects\<close>

lemmas effect_defs = effectsRound_def runVitalsAlertEffect_def runGpsEffect_def
  runOutOfBoundsAlertEffect_def Let_def

lemma effectsRound_isLinked [simp]: "isLinked (effectsRound prev cur iv) = isLinked cur"
  by (simp add: effect_defs)

lemma effectsRound_emergencyContact [simp]:
  "emergencyContact (effectsRound prev cur iv) = emergencyContact cur"
  by (simp add: effect_defs)

lemma effectsRound_isOutOfBounds [simp]:
  "isOutOfBounds (effectsRound prev cur iv) = isOutOfBounds cur"
  by (simp add: effect_defs)

lemma effectsRound_homePosition:
  "homePosition (effectsRound prev cur iv) =
     (if isLinked prev \<noteq> isLinked cur \<and> isLinked cur then None else homePosition cur)"
  by (simp add: effect_defs)

lemma effectsRound_watching:
  "watching (effectsRound prev cur iv) =
     (if isLinked prev \<noteq> isLinked cur then isLinked cur else watching cur)"
  by (simp add: effect_defs)

lemma settle_isLinked [simp]: "isLinked (settle prev cur iv) = isLinked cur"
  by (simp add: settle_def Let_def)

lemma settle_isOutOfBounds [simp]: "isOutOfBounds (settle prev cur iv) = isOutOfBounds cur"
  by (simp add: settle_def Let_def)

lemma settle_homePosition:
  "homePosition (settle prev cur iv) =
     (if isLinked prev \<noteq> isLinked cur \<and> isLinked cur then None else homePosition cur)"
  by (simp add: settle_def Let_def effectsRound_homePosition)

lemma settle_watching:
  "watching (settle prev cur iv) =
     (if isLinked prev \<noteq> isLinked cur then isLinked cur else watching cur)"
  by (simp add: settle_def Let_def effectsRound_watching)

text \<open>No alert is raised by a round in which the rendered state is in bounds and neither
  the link, the contact nor the vitals have changed.\<close>
lemma effectsRound_alerts_quiet:
  "isLinked prev = isLinked cur \<Longrightarrow> emergencyContact prev = emergencyContact cur \<Longrightarrow>
   heartRate prev = heartRate cur \<Longrightarrow> oxygenLevel prev = oxygenLevel cur \<Longrightarrow>
   \<not> isOutOfBounds cur \<Longrightarrow> alerts (effectsRound prev cur iv) = alerts cur"
  by (simp add: effect_defs outOfBoundsAlertEffect_def)

lemma effectsRound_vitals_same:
  "isLinked prev = isLinked cur \<Longrightarrow>
   heartRate (effectsRound prev cur iv) = heartRate cur \<and>
   oxygenLevel (effectsRound prev cur iv) = oxygenLevel cur"
  by (simp add: effect_defs)

lemma onPosition_fields [simp]:
  "isLinked (onPosition p s) = isLinked s"
  "emergencyContact (onPosition p s) = emergencyContact s"
  "heartRate (onPosition p s) = heartRate s"
  "oxygenLevel (onPosition p s) = oxygenLevel s"
  "watching (onPosition p s) = watching s"
  "alerts (onPosition p s) = alerts s"
  by (simp_all add: onPosition_def Let_def)

lemma onPosition_home:
  "homePosition (onPosition p s) = Some (case homePosition s of Some h \<Rightarrow> h | None \<Rightarrow> p)"
  by (simp add: onPosition_def Let_def)

lemma onPosition_oob:
  "isOutOfBounds (onPosition p s) =
     (let home = (case homePosition s of Some h \<Rightarrow> h | None \<Rightarrow> p)
      in exceeds (calculateDistance (lat home) (lon home) (lat p) (lon p)) 5)"
  by (simp add: onPosition_def Let_def)

lemma exceeds_iff: "exceeds d k \<longleftrightarrow> (\<exists>x. d = Some x \<and> k < x)"
  by (cases d) (simp_all add: exceeds_def)

lemma step_Position_oob:
  "watching s \<Longrightarrow> homePosition s = Some home \<Longrightarrow>
   isOutOfBounds (step s (Position p)) =
     exceeds (calculateDistance (lat home) (lon home) (lat p) (lon p)) 5"
  by (simp add: onPosition_oob)

lemma step_first_Position:
  assumes "watching s" "homePosition s = None"
  shows "\<not> isOutOfBounds (step s (Position p))"
    and "homePosition (step s (Position p)) = Some p"
    and "alerts (step s (Position p)) = alerts s"
proof -
  have o: "\<not> isOutOfBounds (onPosition p s)"
    using assms by (simp add: onPosition_oob calculateDistance_same exceeds_def)
  show "\<not> isOutOfBounds (step s (Position p))" using assms o by simp
  show "homePosition (step s (Position p)) = Some p"
    using assms by (simp add: settle_homePosition onPosition_home)
  let ?n = "effectsRound s (onPosition p s) (0, 0)"
  have 1: "alerts ?n = alerts s"
    using o by (simp add: effectsRound_alerts_quiet)
  have 2: "alerts (effectsRound (onPosition p s) ?n (0, 0)) = alerts ?n"
    using o effectsRound_vitals_same [of s "onPosition p s" "(0, 0)"]
    by (intro effectsRound_alerts_quiet) simp_all
  show "alerts (step s (Position p)) = alerts s"
    using assms 1 2 by (simp add: settle_def Let_def)
qed

lemma step_session:
  assumes "sessionEvent e" "monitoring s"
  shows "monitoring (step s e)"
    and "homePosition (step s e) =
           (case e of Position p \<Rightarrow> Some (case homePosition s of Some h \<Rightarrow> h | None \<Rightarrow> p)
            | _ \<Rightarrow> homePosition s)"
  using assms
  by (cases e; simp add: monitoring_def settle_watching settle_homePosition onPosition_home Let_def)+

lemma run_Nil [simp]: "run s [] = s" by (simp add: run_def)
lemma run_Cons [simp]: "run s (e # evs) = run (step s e) evs" by (simp add: run_def)
lemma run_append: "run s (xs @ ys) = run (run s xs) ys" by (simp add: run_def)

lemma run_session_quiet:
  "monitoring s \<Longrightarrow> list_all sessionEvent evs \<Longrightarrow> \<not> list_ex isPosition evs \<Longrightarrow>
   monitoring (run s evs) \<and> homePosition (run s evs) = homePosition s"
proof (induction evs arbitrary: s)
  case Nil
  then show ?case by simp
next
  case (Cons e evs)
  from Cons.prems have e: "sessionEvent e" "\<not> isPosition e" by simp_all
  from step_session [OF e(1) Cons.prems(1)] e(2)
  have "monitoring (step s e)" "homePosition (step s e) = homePosition s"
    by (cases e; simp)+
  with Cons.IH [of "step s e"] Cons.prems show ?case by simp
qed

lemma run_session_home:
  "monitoring s \<Longrightarrow> homePosition s = Some h \<Longrightarrow> list_all sessionEvent evs \<Longrightarrow>
   monitoring (run s evs) \<and> homePosition (run s evs) = Some h"
proof (induction evs arbitrary: s)
  case Nil
  then show ?case by simp
next
  case (Cons e evs)
  from Cons.prems have e: "sessionEvent e" by simp
  from step_session [OF e Cons.prems(1)] Cons.prems(2)
  have "monitoring (step s e)" "homePosition (step s e) = Some h"
    by (cases e; simp)+
  with Cons.IH [of "step s e"] Cons.prems show ?case by simp
qed

lemma step_link:
  "\<not> isLinked s \<Longrightarrow>
   monitoring (step s (SetLinked True r1 r2)) \<and> homePosition (step s (SetLinked True r1 r2)) = None"
  by (simp add: monitoring_def settle_watching settle_homePosition)

lemma step_unlink: "\<not> isLinked (step s (SetLinked False r1 r2))"
  by simp

lemma step_remount: "\<not> isLinked (step s Remount)"
  by (simp add: initialApp_def)

text \<open>
  Claim C8.  After monitoring starts from an unlinked state \<open>s\<close> (whatever home it still
  holds), the home reference is unset until the first position reading \<open>p\<close>, is \<open>p\<close> from
  then on through every later event of the session, and stopping (unlinking or
  remounting) gives an unlinked state again, from which the next start clears the home.
\<close>

theorem home_set_once_per_session:
  "\<not> isLinked s \<and> list_all sessionEvent evs1 \<and> \<not> list_ex isPosition evs1
     \<and> list_all sessionEvent evs2 \<longrightarrow>
   homePosition (run s (SetLinked True r1 r2 # evs1)) = None
   \<and> homePosition (run s (SetLinked True r1 r2 # evs1 @ Position p # evs2)) = Some p
   \<and> \<not> isLinked (step t (SetLinked False r3 r4)) \<and> \<not> isLinked (step t Remount)"
proof (intro impI, elim conjE)
  assume a: "\<not> isLinked s" "list_all sessionEvent evs1" "\<not> list_ex isPosition evs1"
    "list_all sessionEvent evs2"
  let ?s0 = "step s (SetLinked True r1 r2)"
  from step_link [OF a(1)] have 0: "monitoring ?s0" "homePosition ?s0 = None" by simp_all
  from run_session_quiet [OF 0(1) a(2,3)] 0(2)
  have 1: "monitoring (run ?s0 evs1)" "homePosition (run ?s0 evs1) = None" by simp_all
  from 1 have w: "watching (run ?s0 evs1)" by (simp add: monitoring_def)
  have 2: "monitoring (step (run ?s0 evs1) (Position p))"
    using step_session(1) [OF _ 1(1), of "Position p"] by simp
  have 3: "homePosition (step (run ?s0 evs1) (Position p)) = Some p"
    by (rule step_first_Position(2) [OF w 1(2)])
  from run_session_home [OF 2 3 a(4)]
  have 4: "homePosition (run (step (run ?s0 evs1) (Position p)) evs2) = Some p" by simp
  show "homePosition (run s (SetLinked True r1 r2 # evs1)) = None
   \<and> homePosition (run s (SetLinked True r1 r2 # evs1 @ Position p # evs2)) = Some p
   \<and> \<not> isLinked (step t (SetLinked False r3 r4)) \<and> \<not> isLinked (step t Remount)"
    using 1(2) 4 step_unlink [of t r3 r4] step_remount [of t] by (simp only: run_Cons run_append simp_thms)
qed

text \<open>
  Claim C10.  The first position reading of a monitoring session is classified in bounds
  and raises no alert.
\<close>

theorem first_reading_in_bounds:
  "\<not> isLinked s \<and> list_all sessionEvent evs1 \<and> \<not> list_ex isPosition evs1 \<longrightarrow>
   \<not> isOutOfBounds (run s (SetLinked True r1 r2 # evs1 @ [Position p]))
   \<and> alerts (run s (SetLinked True r1 r2 # evs1 @ [Position p]))
       = alerts (run s (SetLinked True r1 r2 # evs1))"
proof (intro impI, elim conjE)
  assume a: "\<not> isLinked s" "list_all sessionEvent evs1" "\<not> list_ex isPosition evs1"
  let ?s0 = "step s (SetLinked True r1 r2)"
  from step_link [OF a(1)] have 0: "monitoring ?s0" "homePosition ?s0 = None" by simp_all
  from run_session_quiet [OF 0(1) a(2,3)] 0(2)
  have 1: "monitoring (run ?s0 evs1)" "homePosition (run ?s0 evs1) = None" by simp_all
  from 1 have w: "watching (run ?s0 evs1)" by (simp add: monitoring_def)
  from step_first_Position(1,3) [OF w 1(2), of p]
  have 5: "\<not> isOutOfBounds (step (run ?s0 evs1) (Position p))"
    "alerts (step (run ?s0 evs1) (Position p)) = alerts (run ?s0 evs1)" by simp_all
  from 5 show "\<not> isOutOfBounds (run s (SetLinked True r1 r2 # evs1 @ [Position p]))
   \<and> alerts (run s (SetLinked True r1 r2 # evs1 @ [Position p]))
       = alerts (run s (SetLinked True r1 r2 # evs1))"
    by (simp only: run_Cons run_append run_Nil simp_thms)
qed

text \<open>
  Claim C7.  On a position update with a home reference, the new boundary state is
  out of bounds exactly when the computed distance from home is a number above 5; a
  reading computed to be 6 km from home is out of bounds, one at 4 km is in bounds, and
  the home reference stays.
\<close>

theorem out_of_bounds_iff:
  "watching s \<and> homePosition s = Some home \<longrightarrow>
   (isOutOfBounds (step s (Position p)) \<longleftrightarrow>
      (\<exists>d. calculateDistance (lat home) (lon home) (lat p) (lon p) = Some d \<and> 5 < d))
   \<and> (calculateDistance (lat home) (lon home) (lat p) (lon p) = Some 6 \<longrightarrow>
        isOutOfBounds (step s (Position p)))
   \<and> (calculateDistance (lat home) (lon home) (lat p) (lon p) = Some 4 \<longrightarrow>
        \<not> isOutOfBounds (step s (Position p)))
   \<and> homePosition (step s (Position p)) = Some home"
proof (intro impI, elim conjE)
  assume a: "watching s" "homePosition s = Some home"
  have h: "homePosition (step s (Position p)) = Some home"
    using a by (simp add: settle_homePosition onPosition_home)
  show "(isOutOfBounds (step s (Position p)) \<longleftrightarrow>
      (\<exists>d. calculateDistance (lat home) (lon home) (lat p) (lon p) = Some d \<and> 5 < d))
   \<and> (calculateDistance (lat home) (lon home) (lat p) (lon p) = Some 6 \<longrightarrow>
        isOutOfBounds (step s (Position p)))
   \<and> (calculateDistance (lat home) (lon home) (lat p) (lon p) = Some 4 \<longrightarrow>
        \<not> isOutOfBounds (step s (Position p)))
   \<and> homePosition (step s (Position p)) = Some home"
    unfolding step_Position_oob [OF a] exceeds_iff using h by simp
qed

lemma initial_unlinked: "\<not> isLinked initialApp"
  by (simp add: initialApp_def)

theorem home_set_once_per_session_witness:
  "\<not> isLinked initialApp
   \<and> homePosition (run initialApp [SetLinked True 0 0, SetContact ''911'']) = None
   \<and> homePosition (run initialApp
        [SetLinked True 0 0, SetContact ''911'', Position \<lparr>lat = 1, lon = 2\<rparr>,
         Position \<lparr>lat = 3, lon = 4\<rparr>]) = Some \<lparr>lat = 1, lon = 2\<rparr>
   \<and> homePosition (run initialApp
        [SetLinked True 0 0, Position \<lparr>lat = 1, lon = 2\<rparr>, SetLinked False 0 0,
         SetLinked True 0 0, Position \<lparr>lat = 3, lon = 4\<rparr>]) = Some \<lparr>lat = 3, lon = 4\<rparr>"
proof -
  let ?p = "\<lparr>lat = 1, lon = 2\<rparr>" and ?q = "\<lparr>lat = 3, lon = 4\<rparr>"
  let ?t = "run initialApp [SetLinked True 0 0, Position ?p]"
  have h1: "\<not> isLinked initialApp \<and> list_all sessionEvent [SetContact ''911'']
     \<and> \<not> list_ex isPosition [SetContact ''911''] \<and> list_all sessionEvent [Position ?q]"
    by (simp add: initial_unlinked)
  from home_set_once_per_session [of initialApp "[SetContact ''911'']" "[Position ?q]" 0 0 ?p ?t 0 0,
      THEN mp, OF h1]
  have 1: "homePosition (run initialApp [SetLinked True 0 0, SetContact ''911'']) = None"
    and 2: "homePosition (run initialApp
        [SetLinked True 0 0, SetContact ''911'', Position ?p, Position ?q]) = Some ?p"
    and 3: "\<not> isLinked (step ?t (SetLinked False 0 0))"
    by (simp_all only: append.simps simp_thms)
  have l: "list_all sessionEvent [] \<and> \<not> list_ex isPosition [] \<and> list_all sessionEvent []"
    by simp
  from 3 l have h2: "\<not> isLinked (step ?t (SetLinked False 0 0)) \<and> list_all sessionEvent []
     \<and> \<not> list_ex isPosition [] \<and> list_all sessionEvent []"
    by (rule conjI)
  from home_set_once_per_session [of "step ?t (SetLinked False 0 0)" "[]" "[]" 0 0 ?q ?t 0 0,
      THEN mp, OF h2]
  have 4: "homePosition (run initialApp
        [SetLinked True 0 0, Position ?p, SetLinked False 0 0,
         SetLinked True 0 0, Position ?q]) = Some ?q"
    by (simp only: append.simps run_Cons run_Nil simp_thms)
  from initial_unlinked 1 2 4 show ?thesis by (intro conjI)
qed

theorem first_reading_in_bounds_witness:
  "\<not> isLinked initialApp
   \<and> \<not> isOutOfBounds (run initialApp
          [SetLinked True 0 0, SetContact ''911'', Position \<lparr>lat = 1, lon = 2\<rparr>])
   \<and> alerts (run initialApp
          [SetLinked True 0 0, SetContact ''911'', Position \<lparr>lat = 1, lon = 2\<rparr>])
       = alerts (run initialApp [SetLinked True 0 0, SetContact ''911''])"
proof -
  have h: "\<not> isLinked initialApp \<and> list_all sessionEvent [SetContact ''911'']
     \<and> \<not> list_ex isPosition [SetContact ''911'']"
    by (simp add: initial_unlinked)
  from first_reading_in_bounds [of initialApp "[SetContact ''911'']" 0 0 "\<lparr>lat = 1, lon = 2\<rparr>",
      THEN mp, OF h]
  have "\<not> isOutOfBounds (run initialApp
          [SetLinked True 0 0, SetContact ''911'', Position \<lparr>lat = 1, lon = 2\<rparr>])
   \<and> alerts (run initialApp
          [SetLinked True 0 0, SetContact ''911'', Position \<lparr>lat = 1, lon = 2\<rparr>])
       = alerts (run initialApp [SetLinked True 0 0, SetContact ''911''])"
    by (simp only: append.simps simp_thms)
  with initial_unlinked show ?thesis by (rule conjI)
qed

lemma north_6: "calculateDistance 0 0 (6 * 180 / (6371 * pi)) 0 = Some 6"
  using pi_ge_two by (intro distance_north) simp_all

lemma north_4: "calculateDistance 0 0 (4 * 180 / (6371 * pi)) 0 = Some 4"
  using pi_ge_two by (intro distance_north) simp_all

theorem out_of_bounds_iff_witness:
  "watching (run initialApp [SetLinked True 0 0, Position \<lparr>lat = 0, lon = 0\<rparr>])
   \<and> homePosition (run initialApp [SetLinked True 0 0, Position \<lparr>lat = 0, lon = 0\<rparr>])
       = Some \<lparr>lat = 0, lon = 0\<rparr>
   \<and> calculateDistance 0 0 (6 * 180 / (6371 * pi)) 0 = Some 6
   \<and> isOutOfBounds (run initialApp
         [SetLinked True 0 0, Position \<lparr>lat = 0, lon = 0\<rparr>,
          Position \<lparr>lat = 6 * 180 / (6371 * pi), lon = 0\<rparr>])
   \<and> calculateDistance 0 0 (4 * 180 / (6371 * pi)) 0 = Some 4
   \<and> \<not> isOutOfBounds (run initialApp
         [SetLinked True 0 0, Position \<lparr>lat = 0, lon = 0\<rparr>,
          Position \<lparr>lat = 4 * 180 / (6371 * pi), lon = 0\<rparr>])"
proof -
  let ?o = "\<lparr>lat = 0, lon = 0\<rparr>"
  let ?l = "step initialApp (SetLinked True 0 0)"
  let ?s = "step ?l (Position ?o)"
  from step_link [OF initial_unlinked, of 0 0]
  have m: "monitoring ?l" and n: "homePosition ?l = None" by simp_all
  from m have wl: "watching ?l" by (simp add: monitoring_def)
  have "monitoring ?s" using step_session(1) [OF _ m, of "Position ?o"] by simp
  then have w: "watching ?s" by (simp add: monitoring_def)
  have h: "homePosition ?s = Some ?o" by (rule step_first_Position(2) [OF wl n])
  from w h have a: "watching ?s \<and> homePosition ?s = Some ?o" by (rule conjI)
  note t6 = out_of_bounds_iff [of ?s ?o "\<lparr>lat = 6 * 180 / (6371 * pi), lon = 0\<rparr>", THEN mp, OF a]
  note t4 = out_of_bounds_iff [of ?s ?o "\<lparr>lat = 4 * 180 / (6371 * pi), lon = 0\<rparr>", THEN mp, OF a]
  have 6: "isOutOfBounds (step ?s (Position \<lparr>lat = 6 * 180 / (6371 * pi), lon = 0\<rparr>))"
    using t6 [THEN conjunct2, THEN conjunct1] north_6 by simp
  have 4: "\<not> isOutOfBounds (step ?s (Position \<lparr>lat = 4 * 180 / (6371 * pi), lon = 0\<rparr>))"
    using t4 [THEN conjunct2, THEN conjunct2, THEN conjunct1] north_4 by simp
  from w h north_6 6 north_4 4 show ?thesis
    by (simp only: run_Cons run_Nil simp_thms)
qed

section \<open>Properties of the hospital block expression\<close>

lemma syntax_subset_escaped: "c \<in> set syntaxCharacters \<Longrightarrow> c \<in> set escapedCharacters"
  by (auto simp: syntaxCharacters_def escapedCharacters_def)

lemma backslash_escaped: "backslash \<in> set escapedCharacters"
  by (simp add: escapedCharacters_def)

lemma bracket_escaped: "CHR ''['' \<in> set escapedCharacters"
  by (simp add: escapedCharacters_def)

lemma compilePattern_literal:
  "c \<notin> set escapedCharacters \<Longrightarrow>
   compilePattern (c # cs) = map_option ((#) (Lit c)) (compilePattern cs)"
  using backslash_escaped bracket_escaped syntax_subset_escaped [of c] by auto

lemma compilePattern_escaped:
  "c \<in> set escapedCharacters \<Longrightarrow>
   compilePattern (backslash # c # cs) = map_option ((#) (Lit c)) (compilePattern cs)"
  by simp

lemma compilePattern_escapeRegExp:
  "compilePattern (escapeRegExp s @ rest)
     = map_option ((@) (map Lit s)) (compilePattern rest)"
proof (induction s)
  case Nil
  show ?case by (simp add: escapeRegExp_def option.map_ident)
next
  case (Cons c s)
  have e: "escapeRegExp (c # s) @ rest =
      (if c \<in> set escapedCharacters then backslash # c # (escapeRegExp s @ rest)
       else c # (escapeRegExp s @ rest))"
    by (simp add: escapeRegExp_def)
  show ?case
    unfolding e using Cons.IH
    by (simp add: compilePattern_literal compilePattern_escaped option.map_comp comp_def
          del: compilePattern.simps)
qed

lemma escapeRegExp_header: "escapeRegExp ''HOSPITAL: '' = ''HOSPITAL: ''"
  by (simp add: escapeRegExp_def escapedCharacters_def backslash_def)

lemma escapeRegExp_append: "escapeRegExp (a @ b) = escapeRegExp a @ escapeRegExp b"
  by (simp add: escapeRegExp_def)

lemma compilePattern_tail:
  "compilePattern (''['' @ anyClassLazy @ ''---'')
     = Some [LazyAnyStar, Lit CHR ''-'', Lit CHR ''-'', Lit CHR ''-'']"
  by (simp add: anyClassLazy_def backslash_def syntaxCharacters_def)

lemma compile_hospitalBlockSource:
  "compilePattern (hospitalBlockSource hospitalName) = Some (blockTokens hospitalName)"
proof -
  have "hospitalBlockSource hospitalName
        = escapeRegExp (''HOSPITAL: '' @ hospitalName) @ (''['' @ anyClassLazy @ ''---'')"
    unfolding escapeRegExp_append escapeRegExp_header hospitalBlockSource_def by simp
  then show ?thesis
    by (simp only: compilePattern_escapeRegExp compilePattern_tail blockTokens_def)
      (simp add: header_def sentinel_def)
qed

lemma matchHospitalBlock_eq:
  "matchHospitalBlock hospitalName resultText
     = Some (regexSearch (blockTokens hospitalName) resultText)"
  by (simp add: matchHospitalBlock_def compile_hospitalBlockSource)

lemma matchResponse_text:
  "matchResponse hospitalName (Some narrative)
     = Some (regexSearch (blockTokens hospitalName) narrative)"
  by (simp add: matchResponse_def compile_hospitalBlockSource)


section \<open>Properties of the reconciliation\<close>


lemma parsedHospitals_nth:
  "\<exists>hs. parsedHospitals i0 hits (Some narrative) rnd k = Some hs \<and> length hs = length hits \<and>
     (\<forall>j<length hits. \<exists>k'. hs ! j =
        fst (enrich (i0 + j) (hits ! j) (regexSearch (blockTokens (name (hits ! j))) narrative)
               (rnd k')))"
proof (induction hits arbitrary: i0 k)
  case Nil
  show ?case by simp
next
  case (Cons h hits)
  let ?m = "regexSearch (blockTokens (name h)) narrative"
  let ?k = "if snd (enrich i0 h ?m (rnd k)) then k + 1 else k"
  from Cons.IH [of "i0 + 1" ?k] obtain hs where
    hs: "parsedHospitals (i0 + 1) hits (Some narrative) rnd ?k = Some hs" "length hs = length hits"
    and nth: "\<And>j. j < length hits \<Longrightarrow> \<exists>k'. hs ! j =
        fst (enrich (i0 + 1 + j) (hits ! j)
               (regexSearch (blockTokens (name (hits ! j))) narrative) (rnd k'))"
    by blast
  have p: "parsedHospitals i0 (h # hits) (Some narrative) rnd k
             = Some (fst (enrich i0 h ?m (rnd k)) # hs)"
    using hs(1) by (simp add: matchResponse_text split_beta)
  have "\<exists>k'. (fst (enrich i0 h ?m (rnd k)) # hs) ! j =
        fst (enrich (i0 + j) ((h # hits) ! j)
          (regexSearch (blockTokens (name ((h # hits) ! j))) narrative) (rnd k'))"
    if "j < length (h # hits)" for j
  proof (cases j)
    case 0
    then show ?thesis by auto
  next
    case (Suc j')
    with that have "j' < length hits" by simp
    from nth [OF this] Suc show ?thesis by simp
  qed
  with p hs(2) show ?case by simp
qed


lemma digit_nth: "d < 10 \<Longrightarrow> isDigit (''0123456789'' ! d)"
  unfolding isDigit_def by (rule nth_mem) simp

lemma ratingPattern_generate:
  assumes "375 / 100 \<le> x" "x < 505 / 100"
  shows "ratingPattern (generateRandomRating x)"
proof -
  define n where "n = nat \<lfloor>\<bar>x\<bar> * 10 + 1 / 2\<rfloor>"
  from assms have "38 \<le> \<lfloor>\<bar>x\<bar> * 10 + 1 / 2\<rfloor>" "\<lfloor>\<bar>x\<bar> * 10 + 1 / 2\<rfloor> \<le> 50"
    by (simp_all add: le_floor_iff floor_le_iff)
  then have n: "38 \<le> n" "n \<le> 50" unfolding n_def by linarith+
  then have d: "n div 10 < 10" "n mod 10 < 10" by simp_all
  have "generateRandomRating x
        = [''0123456789'' ! (n div 10), CHR ''.'', ''0123456789'' ! (n mod 10)] @ ''/5 stars''"
    using assms d unfolding generateRandomRating_def toFixed1_def Let_def n_def [symmetric]
    by simp
  then show ?thesis using digit_nth [OF d(1)] digit_nth [OF d(2)]
    by (simp add: ratingPattern_def)
qed

lemma generateRandomRating_nonempty: "generateRandomRating x \<noteq> []"
  by (simp add: generateRandomRating_def)

lemma doctor_nonempty: "randomDoctorNames ! (i mod length randomDoctorNames) \<noteq> []"
proof -
  have "i mod length randomDoctorNames < length randomDoctorNames"
    by (simp add: randomDoctorNames_def)
  then have "randomDoctorNames ! (i mod length randomDoctorNames) \<in> set randomDoctorNames"
    by (rule nth_mem)
  then show ?thesis by (auto simp: randomDoctorNames_def)
qed

lemma enrich_fields:
  "contact (fst (enrich i h m r)) =
     (if needsContactFallback (fieldOf ''CONTACT: '' m) then ''Not Available''
      else fieldOf ''CONTACT: '' m)"
  "bestDoctor (fst (enrich i h m r)) =
     (if needsDoctorFallback (fieldOf ''BEST DOCTOR: '' m)
      then randomDoctorNames ! (i mod length randomDoctorNames)
      else fieldOf ''BEST DOCTOR: '' m)"
  "rating (fst (enrich i h m r)) =
     (if needsRatingFallback (fieldOf ''RATING: '' m) then generateRandomRating r
      else fieldOf ''RATING: '' m)"
  by (simp_all add: enrich_def Let_def)

lemma enrich_nonempty:
  "contact (fst (enrich i h m r)) \<noteq> []"
  "bestDoctor (fst (enrich i h m r)) \<noteq> []"
  "rating (fst (enrich i h m r)) \<noteq> []"
  unfolding enrich_fields
  using doctor_nonempty [of i] generateRandomRating_nonempty [of r]
  by (auto simp: needsContactFallback_def needsDoctorFallback_def needsRatingFallback_def)

lemma regexSearch_empty: "regexSearch (blockTokens n) [] = None"
  by (simp add: blockTokens_def header_def)

lemma fieldOf_None: "fieldOf l None = []"
  by (simp add: fieldOf_def)

subsection \<open>Containing a phrase in any letter case\<close>

lemma includesStr_iff: "includesStr s sub \<longleftrightarrow> (\<exists>pre post. s = pre @ sub @ post)"
proof (induction s)
  case Nil
  show ?case by auto
next
  case (Cons c cs)
  show ?case
  proof
    assume "includesStr (c # cs) sub"
    then consider "prefix sub (c # cs)" | "includesStr cs sub" by auto
    then show "\<exists>pre post. c # cs = pre @ sub @ post"
    proof cases
      case 1
      then obtain post where "c # cs = sub @ post" by (auto simp: prefix_def)
      then have "c # cs = [] @ sub @ post" by simp
      then show ?thesis by blast
    next
      case 2
      with Cons.IH obtain pre post where "cs = pre @ sub @ post" by blast
      then have "c # cs = (c # pre) @ sub @ post" by simp
      then show ?thesis by blast
    qed
  next
    assume "\<exists>pre post. c # cs = pre @ sub @ post"
    then obtain pre post where e: "c # cs = pre @ sub @ post" by blast
    show "includesStr (c # cs) sub"
    proof (cases pre)
      case Nil
      with e have "prefix sub (c # cs)" by (auto simp: prefix_def)
      then show ?thesis by simp
    next
      case (Cons p pre')
      with e have "cs = pre' @ sub @ post" by simp
      with Cons.IH have "includesStr cs sub" by blast
      then show ?thesis by simp
    qed
  qed
qed

lemma letters_distinct: "distinct (map fst (zip upperLetters lowerLetters))"
  by (simp add: upperLetters_def lowerLetters_def)

lemma letters_fst: "fst ` set (zip upperLetters lowerLetters) = set upperLetters"
  by (simp add: upperLetters_def lowerLetters_def)

lemma toLowerCase_single:
  "toLowerCase [x] = [l] \<longleftrightarrow>
     (x = l \<and> x \<notin> set upperLetters) \<or> (x, l) \<in> set (zip upperLetters lowerLetters)"
proof (cases "map_of (zip upperLetters lowerLetters) x")
  case None
  then have "x \<notin> set upperLetters"
    using letters_fst by (simp add: map_of_eq_None_iff)
  moreover from this have "(x, l) \<notin> set (zip upperLetters lowerLetters)"
    by (auto dest: set_zip_leftD)
  ultimately show ?thesis using None by (simp add: toLowerCase_def)
next
  case (Some y)
  then have m: "(x, y) \<in> set (zip upperLetters lowerLetters)" by (rule map_of_SomeD)
  then have u: "x \<in> set upperLetters" by (rule set_zip_leftD)
  have "(x, l) \<in> set (zip upperLetters lowerLetters) \<longleftrightarrow> y = l"
    using Some map_of_eq_Some_iff [OF letters_distinct, of x l] by auto
  with u Some show ?thesis by (auto simp: toLowerCase_def)
qed

lemma toLowerCase_Cons: "toLowerCase (x # xs) = toLowerCase [x] @ toLowerCase xs"
  by (simp add: toLowerCase_def)

lemma toLowerCase_single_length: "\<exists>y. toLowerCase [x] = [y]"
  by (simp add: toLowerCase_def)

lemma spelled_iff:
  "length lo = length up \<Longrightarrow>
   (\<forall>(l, u) \<in> set (zip lo up). \<forall>x. toLowerCase [x] = [l] \<longleftrightarrow> x = l \<or> x = u) \<Longrightarrow>
   toLowerCase w = lo \<longleftrightarrow> spelled w lo up"
proof (induction lo up arbitrary: w rule: list_induct2)
  case Nil
  show ?case by (simp add: spelled_def toLowerCase_def)
next
  case (Cons l lo u up)
  from Cons.prems have c: "\<And>x. toLowerCase [x] = [l] \<longleftrightarrow> x = l \<or> x = u"
    and r: "\<forall>(l, u) \<in> set (zip lo up). \<forall>x. toLowerCase [x] = [l] \<longleftrightarrow> x = l \<or> x = u"
    by auto
  show ?case
  proof (cases w)
    case Nil
    then show ?thesis by (simp add: spelled_def toLowerCase_def)
  next
    case (Cons x xs)
    obtain y where y: "toLowerCase [x] = [y]" using toLowerCase_single_length by blast
    have "toLowerCase (x # xs) = l # lo \<longleftrightarrow> toLowerCase [x] = [l] \<and> toLowerCase xs = lo"
      unfolding toLowerCase_Cons [of x xs] y by auto
    also have "\<dots> \<longleftrightarrow> (x = l \<or> x = u) \<and> spelled xs lo up"
      using c Cons.IH [OF r] by simp
    also have "\<dots> \<longleftrightarrow> spelled (x # xs) (l # lo) (u # up)"
      by (simp add: spelled_def)
    finally show ?thesis using Cons by simp
  qed
qed

lemma map_has_part:
  "(\<exists>pre post. map f s = pre @ lo @ post) \<longleftrightarrow> (\<exists>pre w post. s = pre @ w @ post \<and> map f w = lo)"
proof
  assume "\<exists>pre post. map f s = pre @ lo @ post"
  then obtain pre post where 0: "map f s = pre @ (lo @ post)" by auto
  from 0 [unfolded map_eq_append_conv] obtain a b where
    ab: "s = a @ b" "lo @ post = map f b" by auto
  from ab(2) [symmetric, unfolded map_eq_append_conv] obtain w c where
    wc: "b = w @ c" "lo = map f w" by auto
  from ab(1) wc have "s = a @ w @ c \<and> map f w = lo" by simp
  then show "\<exists>pre w post. s = pre @ w @ post \<and> map f w = lo" by blast
next
  assume "\<exists>pre w post. s = pre @ w @ post \<and> map f w = lo"
  then obtain pre w post where "s = pre @ w @ post" "map f w = lo" by blast
  then have "map f s = map f pre @ lo @ map f post" by simp
  then show "\<exists>pre post. map f s = pre @ lo @ post" by blast
qed

lemma mentions_iff:
  assumes "length lo = length up"
    and "\<forall>(l, u) \<in> set (zip lo up). \<forall>x. toLowerCase [x] = [l] \<longleftrightarrow> x = l \<or> x = u"
  shows "includesStr (toLowerCase s) lo \<longleftrightarrow> mentions s lo up"
proof -
  have "includesStr (toLowerCase s) lo
          \<longleftrightarrow> (\<exists>pre w post. s = pre @ w @ post \<and> toLowerCase w = lo)"
    unfolding includesStr_iff toLowerCase_def by (rule map_has_part)
  also have "\<dots> \<longleftrightarrow> mentions s lo up"
    unfolding mentions_def spelled_iff [OF assms] ..
  finally show ?thesis .
qed

lemma phrase_letters:
  "toLowerCase [x] = [CHR ''n''] \<longleftrightarrow> x = CHR ''n'' \<or> x = CHR ''N''"
  "toLowerCase [x] = [CHR ''o''] \<longleftrightarrow> x = CHR ''o'' \<or> x = CHR ''O''"
  "toLowerCase [x] = [CHR ''t''] \<longleftrightarrow> x = CHR ''t'' \<or> x = CHR ''T''"
  "toLowerCase [x] = [CHR ''s''] \<longleftrightarrow> x = CHR ''s'' \<or> x = CHR ''S''"
  "toLowerCase [x] = [CHR ''p''] \<longleftrightarrow> x = CHR ''p'' \<or> x = CHR ''P''"
  "toLowerCase [x] = [CHR ''e''] \<longleftrightarrow> x = CHR ''e'' \<or> x = CHR ''E''"
  "toLowerCase [x] = [CHR ''c''] \<longleftrightarrow> x = CHR ''c'' \<or> x = CHR ''C''"
  "toLowerCase [x] = [CHR ''i''] \<longleftrightarrow> x = CHR ''i'' \<or> x = CHR ''I''"
  "toLowerCase [x] = [CHR ''f''] \<longleftrightarrow> x = CHR ''f'' \<or> x = CHR ''F''"
  "toLowerCase [x] = [CHR ''d''] \<longleftrightarrow> x = CHR ''d'' \<or> x = CHR ''D''"
  "toLowerCase [x] = [CHR ''a''] \<longleftrightarrow> x = CHR ''a'' \<or> x = CHR ''A''"
  "toLowerCase [x] = [CHR ''v''] \<longleftrightarrow> x = CHR ''v'' \<or> x = CHR ''V''"
  "toLowerCase [x] = [CHR ''l''] \<longleftrightarrow> x = CHR ''l'' \<or> x = CHR ''L''"
  "toLowerCase [x] = [CHR ''b''] \<longleftrightarrow> x = CHR ''b'' \<or> x = CHR ''B''"
  "toLowerCase [x] = [CHR '' ''] \<longleftrightarrow> x = CHR '' '' \<or> x = CHR '' ''"
  unfolding toLowerCase_single by (auto simp: upperLetters_def lowerLetters_def)

lemma not_specified_letters:
  "\<forall>(l, u) \<in> set (zip ''not specified'' ''NOT SPECIFIED'').
     \<forall>x. toLowerCase [x] = [l] \<longleftrightarrow> x = l \<or> x = u"
  by (simp add: phrase_letters)

lemma not_available_letters:
  "\<forall>(l, u) \<in> set (zip ''not available'' ''NOT AVAILABLE'').
     \<forall>x. toLowerCase [x] = [l] \<longleftrightarrow> x = l \<or> x = u"
  by (simp add: phrase_letters)

lemma not_specified_iff:
  "includesStr (toLowerCase s) ''not specified'' \<longleftrightarrow> mentions s ''not specified'' ''NOT SPECIFIED''"
  by (rule mentions_iff [OF _ not_specified_letters]) simp

lemma not_available_iff:
  "includesStr (toLowerCase s) ''not available'' \<longleftrightarrow> mentions s ''not available'' ''NOT AVAILABLE''"
  by (rule mentions_iff [OF _ not_available_letters]) simp

lemma needsContactFallback_iff:
  "needsContactFallback c \<longleftrightarrow>
     c = [] \<or> mentions c ''not specified'' ''NOT SPECIFIED''
            \<or> mentions c ''not available'' ''NOT AVAILABLE''"
  unfolding needsContactFallback_def not_specified_iff not_available_iff ..

lemma needsDoctorFallback_iff:
  "needsDoctorFallback d \<longleftrightarrow> d = [] \<or> mentions d ''not specified'' ''NOT SPECIFIED''"
  unfolding needsDoctorFallback_def not_specified_iff ..

lemma needsRatingFallback_iff:
  "needsRatingFallback r \<longleftrightarrow> r = [] \<or> mentions r ''not available'' ''NOT AVAILABLE''"
  unfolding needsRatingFallback_def not_available_iff ..

subsection \<open>The list of hospitals\<close>

lemma reconcile_nonempty:
  assumes "hits \<noteq> []"
  shows "\<exists>hs. reconcile hits (Some narrative) rnd
           = \<lparr>hospitals = hs, hospitalError = [], isFindingHospitals = False\<rparr>
         \<and> length hs = length hits
         \<and> (\<forall>j<length hits. \<exists>k'. hs ! j =
              fst (enrich j (hits ! j) (regexSearch (blockTokens (name (hits ! j))) narrative)
                     (rnd k')))"
proof -
  from parsedHospitals_nth [of 0 hits narrative rnd 0] obtain hs where
    hs: "parsedHospitals 0 hits (Some narrative) rnd 0 = Some hs" "length hs = length hits"
      "\<forall>j<length hits. \<exists>k'. hs ! j =
        fst (enrich j (hits ! j) (regexSearch (blockTokens (name (hits ! j))) narrative) (rnd k'))"
    by auto
  from assms hs(1) have "reconcile hits (Some narrative) rnd
      = \<lparr>hospitals = hs, hospitalError = [], isFindingHospitals = False\<rparr>"
    by (simp add: reconcile_def)
  with hs(2,3) show ?thesis by blast
qed


lemma handleFindHospitals_response:
  "skipBudget \<or> trim budget \<noteq> [] \<Longrightarrow>
   handleFindHospitals skipBudget budget s (Response hits resultText) rnd
     = reconcile hits resultText rnd"
  by (auto simp: handleFindHospitals_def)






text \<open>
  Claim C6.  With generated ratings that print as 3.8 to 5.0 and a response that has a
  text, for the hit at index \<open>j\<close> and the result \<open>m\<close> of its block match: the contact is
  the extracted one, or Not Available when that is empty or contains not specified or
  not available in any letter case; the doctor is the extracted one, or the pool entry
  \<open>j mod length pool\<close> when that is empty or contains not specified; the rating is the
  extracted one, or a generated one of the pattern X.Y/5 stars when that is empty or
  contains not available; the three fields are never empty; and with an empty narrative
  all three fallbacks are taken.
\<close>

theorem enriched_fields:
  "(\<forall>k. 375 / 100 \<le> rnd k \<and> rnd k < 505 / 100) \<and> j < length hits
     \<and> matchHospitalBlock (name (hits ! j)) narrative = Some m \<longrightarrow>
   contact (hospitals (reconcile hits (Some narrative) rnd) ! j)
     = (if fieldOf ''CONTACT: '' m = []
           \<or> mentions (fieldOf ''CONTACT: '' m) ''not specified'' ''NOT SPECIFIED''
           \<or> mentions (fieldOf ''CONTACT: '' m) ''not available'' ''NOT AVAILABLE''
        then ''Not Available'' else fieldOf ''CONTACT: '' m)
   \<and> bestDoctor (hospitals (reconcile hits (Some narrative) rnd) ! j)
     = (if fieldOf ''BEST DOCTOR: '' m = []
           \<or> mentions (fieldOf ''BEST DOCTOR: '' m) ''not specified'' ''NOT SPECIFIED''
        then randomDoctorNames ! (j mod length randomDoctorNames)
        else fieldOf ''BEST DOCTOR: '' m)
   \<and> (if fieldOf ''RATING: '' m = []
         \<or> mentions (fieldOf ''RATING: '' m) ''not available'' ''NOT AVAILABLE''
      then ratingPattern (rating (hospitals (reconcile hits (Some narrative) rnd) ! j))
      else rating (hospitals (reconcile hits (Some narrative) rnd) ! j) = fieldOf ''RATING: '' m)
   \<and> contact (hospitals (reconcile hits (Some narrative) rnd) ! j) \<noteq> []
   \<and> bestDoctor (hospitals (reconcile hits (Some narrative) rnd) ! j) \<noteq> []
   \<and> rating (hospitals (reconcile hits (Some narrative) rnd) ! j) \<noteq> []
   \<and> (narrative = [] \<longrightarrow>
        contact (hospitals (reconcile hits (Some narrative) rnd) ! j) = ''Not Available''
        \<and> bestDoctor (hospitals (reconcile hits (Some narrative) rnd) ! j)
            = randomDoctorNames ! (j mod length randomDoctorNames)
        \<and> ratingPattern (rating (hospitals (reconcile hits (Some narrative) rnd) ! j)))"
proof (intro impI, elim conjE)
  assume rnd: "\<forall>k. 375 / 100 \<le> rnd k \<and> rnd k < 505 / 100" and j: "j < length hits"
    and m: "matchHospitalBlock (name (hits ! j)) narrative = Some m"
  from j have "hits \<noteq> []" by auto
  from reconcile_nonempty [OF this, of narrative rnd] j obtain hs k' where
    r: "hospitals (reconcile hits (Some narrative) rnd) = hs"
    and n: "hs ! j = fst (enrich j (hits ! j)
                            (regexSearch (blockTokens (name (hits ! j))) narrative) (rnd k'))"
    by fastforce
  from m have m': "regexSearch (blockTokens (name (hits ! j))) narrative = m"
    by (simp add: matchHospitalBlock_eq)
  let ?h = "fst (enrich j (hits ! j) m (rnd k'))"
  have h: "hospitals (reconcile hits (Some narrative) rnd) ! j = ?h" using r n m' by simp
  have p: "ratingPattern (generateRandomRating (rnd k'))"
    using rnd by (intro ratingPattern_generate) simp_all
  have e: "narrative = [] \<Longrightarrow> m = None"
    using m' regexSearch_empty [of "name (hits ! j)"] by (simp del: regexSearch.simps)
  show "contact (hospitals (reconcile hits (Some narrative) rnd) ! j)
     = (if fieldOf ''CONTACT: '' m = []
           \<or> mentions (fieldOf ''CONTACT: '' m) ''not specified'' ''NOT SPECIFIED''
           \<or> mentions (fieldOf ''CONTACT: '' m) ''not available'' ''NOT AVAILABLE''
        then ''Not Available'' else fieldOf ''CONTACT: '' m)
   \<and> bestDoctor (hospitals (reconcile hits (Some narrative) rnd) ! j)
     = (if fieldOf ''BEST DOCTOR: '' m = []
           \<or> mentions (fieldOf ''BEST DOCTOR: '' m) ''not specified'' ''NOT SPECIFIED''
        then randomDoctorNames ! (j mod length randomDoctorNames)
        else fieldOf ''BEST DOCTOR: '' m)
   \<and> (if fieldOf ''RATING: '' m = []
         \<or> mentions (fieldOf ''RATING: '' m) ''not available'' ''NOT AVAILABLE''
      then ratingPattern (rating (hospitals (reconcile hits (Some narrative) rnd) ! j))
      else rating (hospitals (reconcile hits (Some narrative) rnd) ! j) = fieldOf ''RATING: '' m)
   \<and> contact (hospitals (reconcile hits (Some narrative) rnd) ! j) \<noteq> []
   \<and> bestDoctor (hospitals (reconcile hits (Some narrative) rnd) ! j) \<noteq> []
   \<and> rating (hospitals (reconcile hits (Some narrative) rnd) ! j) \<noteq> []
   \<and> (narrative = [] \<longrightarrow>
        contact (hospitals (reconcile hits (Some narrative) rnd) ! j) = ''Not Available''
        \<and> bestDoctor (hospitals (reconcile hits (Some narrative) rnd) ! j)
            = randomDoctorNames ! (j mod length randomDoctorNames)
        \<and> ratingPattern (rating (hospitals (reconcile hits (Some narrative) rnd) ! j)))"
    unfolding h
      needsContactFallback_iff [symmetric] needsDoctorFallback_iff [symmetric]
      needsRatingFallback_iff [symmetric]
    using p e enrich_nonempty [of j "hits ! j" m "rnd k'"]
    by (simp add: enrich_fields needsContactFallback_def needsDoctorFallback_def
          needsRatingFallback_def fieldOf_None)
qed

subsection \<open>The example with both kinds of block\<close>

lemma example_blocks:
  "matchHospitalBlock ''Alpha'' exampleNarrative
     = Some (Some ''HOSPITAL: Alpha\<newline>CONTACT: 555-1234\<newline>BEST DOCTOR: Dr. Test\<newline>RATING: 4.2/5 stars\<newline>---'')"
  "matchHospitalBlock ''Beta'' exampleNarrative
     = Some (Some ''HOSPITAL: Beta\<newline>CONTACT: Number NOT Specified\<newline>BEST DOCTOR: Not Specified\<newline>RATING: NOT AVAILABLE\<newline>---'')"
  by code_simp+

lemma example_given:
  "fieldOf ''CONTACT: '' (Some ''HOSPITAL: Alpha\<newline>CONTACT: 555-1234\<newline>BEST DOCTOR: Dr. Test\<newline>RATING: 4.2/5 stars\<newline>---'') = ''555-1234''"
  "fieldOf ''BEST DOCTOR: '' (Some ''HOSPITAL: Alpha\<newline>CONTACT: 555-1234\<newline>BEST DOCTOR: Dr. Test\<newline>RATING: 4.2/5 stars\<newline>---'') = ''Dr. Test''"
  "fieldOf ''RATING: '' (Some ''HOSPITAL: Alpha\<newline>CONTACT: 555-1234\<newline>BEST DOCTOR: Dr. Test\<newline>RATING: 4.2/5 stars\<newline>---'') = ''4.2/5 stars''"
  by code_simp+

lemma example_missing:
  "fieldOf ''CONTACT: '' (Some ''HOSPITAL: Beta\<newline>CONTACT: Number NOT Specified\<newline>BEST DOCTOR: Not Specified\<newline>RATING: NOT AVAILABLE\<newline>---'') = ''Number NOT Specified''"
  "fieldOf ''BEST DOCTOR: '' (Some ''HOSPITAL: Beta\<newline>CONTACT: Number NOT Specified\<newline>BEST DOCTOR: Not Specified\<newline>RATING: NOT AVAILABLE\<newline>---'') = ''Not Specified''"
  "fieldOf ''RATING: '' (Some ''HOSPITAL: Beta\<newline>CONTACT: Number NOT Specified\<newline>BEST DOCTOR: Not Specified\<newline>RATING: NOT AVAILABLE\<newline>---'') = ''NOT AVAILABLE''"
  by code_simp+

lemma example_plain:
  "\<not> mentions ''555-1234'' ''not specified'' ''NOT SPECIFIED''"
  "\<not> mentions ''555-1234'' ''not available'' ''NOT AVAILABLE''"
  "\<not> mentions ''Dr. Test'' ''not specified'' ''NOT SPECIFIED''"
  "\<not> mentions ''4.2/5 stars'' ''not available'' ''NOT AVAILABLE''"
  unfolding not_specified_iff [symmetric] not_available_iff [symmetric] by code_simp+

lemma example_phrases:
  "mentions ''Number NOT Specified'' ''not specified'' ''NOT SPECIFIED''"
  "mentions ''Not Specified'' ''not specified'' ''NOT SPECIFIED''"
  "mentions ''NOT AVAILABLE'' ''not available'' ''NOT AVAILABLE''"
  unfolding not_specified_iff [symmetric] not_available_iff [symmetric] by code_simp+

lemma example_ratings: "\<forall>k. 375 / 100 \<le> constantRatings (9 / 2) k \<and> constantRatings (9 / 2) k < 505 / 100"
  by (simp add: constantRatings_def)

theorem enriched_fields_witness:
  "contact (hospitals (reconcile exampleHits (Some exampleNarrative) (constantRatings (9 / 2))) ! 0)
     = ''555-1234''
   \<and> bestDoctor (hospitals (reconcile exampleHits (Some exampleNarrative) (constantRatings (9 / 2))) ! 0)
     = ''Dr. Test''
   \<and> rating (hospitals (reconcile exampleHits (Some exampleNarrative) (constantRatings (9 / 2))) ! 0)
     = ''4.2/5 stars''
   \<and> contact (hospitals (reconcile exampleHits (Some exampleNarrative) (constantRatings (9 / 2))) ! 1)
     = ''Not Available''
   \<and> bestDoctor (hospitals (reconcile exampleHits (Some exampleNarrative) (constantRatings (9 / 2))) ! 1)
     = ''Dr. Benjamin Hayes''
   \<and> ratingPattern
        (rating (hospitals (reconcile exampleHits (Some exampleNarrative) (constantRatings (9 / 2))) ! 1))
   \<and> contact (hospitals (reconcile exampleHits (Some []) (constantRatings (9 / 2))) ! 0)
     = ''Not Available''
   \<and> bestDoctor (hospitals (reconcile exampleHits (Some []) (constantRatings (9 / 2))) ! 0)
     = ''Dr. Emily Carter''
   \<and> ratingPattern
        (rating (hospitals (reconcile exampleHits (Some []) (constantRatings (9 / 2))) ! 0))"
proof -
  let ?a = "''HOSPITAL: Alpha\<newline>CONTACT: 555-1234\<newline>BEST DOCTOR: Dr. Test\<newline>RATING: 4.2/5 stars\<newline>---''"
  let ?b = "''HOSPITAL: Beta\<newline>CONTACT: Number NOT Specified\<newline>BEST DOCTOR: Not Specified\<newline>RATING: NOT AVAILABLE\<newline>---''"
  have h0: "(\<forall>k. 375 / 100 \<le> constantRatings (9 / 2) k \<and> constantRatings (9 / 2) k < 505 / 100)
      \<and> 0 < length exampleHits
      \<and> matchHospitalBlock (name (exampleHits ! 0)) exampleNarrative = Some (Some ?a)"
    using example_ratings example_blocks(1) by (simp add: exampleHits_def)
  have h1: "(\<forall>k. 375 / 100 \<le> constantRatings (9 / 2) k \<and> constantRatings (9 / 2) k < 505 / 100)
      \<and> 1 < length exampleHits
      \<and> matchHospitalBlock (name (exampleHits ! 1)) exampleNarrative = Some (Some ?b)"
    using example_ratings example_blocks(2) by (simp add: exampleHits_def)
  have h2: "(\<forall>k. 375 / 100 \<le> constantRatings (9 / 2) k \<and> constantRatings (9 / 2) k < 505 / 100)
      \<and> 0 < length exampleHits
      \<and> matchHospitalBlock (name (exampleHits ! 0)) [] = Some None"
    using example_ratings
    by (simp add: exampleHits_def matchHospitalBlock_eq blockTokens_def header_def)
  note t0 = enriched_fields [of "constantRatings (9 / 2)" 0 exampleHits exampleNarrative "Some ?a",
      THEN mp, OF h0]
  note t1 = enriched_fields [of "constantRatings (9 / 2)" 1 exampleHits exampleNarrative "Some ?b",
      THEN mp, OF h1]
  note t2 = enriched_fields [of "constantRatings (9 / 2)" 0 exampleHits "[]" None, THEN mp, OF h2]
  note g2 = t2 [THEN conjunct2, THEN conjunct2, THEN conjunct2, THEN conjunct2, THEN conjunct2,
      THEN conjunct2, THEN mp, OF refl]
  from t0 have 0:
    "contact (hospitals (reconcile exampleHits (Some exampleNarrative) (constantRatings (9 / 2))) ! 0)
       = ''555-1234''
     \<and> bestDoctor (hospitals (reconcile exampleHits (Some exampleNarrative) (constantRatings (9 / 2))) ! 0)
       = ''Dr. Test''
     \<and> rating (hospitals (reconcile exampleHits (Some exampleNarrative) (constantRatings (9 / 2))) ! 0)
       = ''4.2/5 stars''"
    by (simp add: example_given example_plain)
  from t1 have 1:
    "contact (hospitals (reconcile exampleHits (Some exampleNarrative) (constantRatings (9 / 2))) ! 1)
       = ''Not Available''
     \<and> bestDoctor (hospitals (reconcile exampleHits (Some exampleNarrative) (constantRatings (9 / 2))) ! 1)
       = ''Dr. Benjamin Hayes''
     \<and> ratingPattern
        (rating (hospitals (reconcile exampleHits (Some exampleNarrative) (constantRatings (9 / 2))) ! 1))"
    by (simp add: example_missing example_phrases randomDoctorNames_def)
  from g2 have 2:
    "contact (hospitals (reconcile exampleHits (Some []) (constantRatings (9 / 2))) ! 0)
       = ''Not Available''
     \<and> bestDoctor (hospitals (reconcile exampleHits (Some []) (constantRatings (9 / 2))) ! 0)
       = ''Dr. Emily Carter''
     \<and> ratingPattern
        (rating (hospitals (reconcile exampleHits (Some []) (constantRatings (9 / 2))) ! 0))"
    by (simp add: randomDoctorNames_def)
  from 0 1 2 show ?thesis by blast
qed

lemma aidFailedMessage_nonempty: "aidFailedMessage \<noteq> []"
  by (simp add: aidFailedMessage_def)

text \<open>
  Claim C4, as stated: every record is checked for its four non-empty fields and a
  payload that is not a list of such records is an error.  A record with one empty
  field and three missing ones is surfaced as it is, and a payload that is no list at
  all is stored without an error.
\<close>

theorem aid_record_counterexample:
  "\<not> validAidRecord (JObject [(''schemeName'', JString [])])
   \<and> financialAidInfo (handleFindFinancialAid exampleQuery
        (AidParsed (JArray [JObject [(''schemeName'', JString [])]])))
       = JArray [JObject [(''schemeName'', JString [])]]
   \<and> financialAidError (handleFindFinancialAid exampleQuery
        (AidParsed (JArray [JObject [(''schemeName'', JString [])]]))) = []
   \<and> financialAidError (handleFindFinancialAid exampleQuery (AidParsed (JString ''none''))) = []"
  by (simp add: handleFindFinancialAid_def exampleQuery_def trim_def isWhiteSpace_def
        validAidRecord_def nonEmptyStringField_def)

text \<open>
  Claim C4, amended.  With a query entered, the handler ends with the error message
  exactly when the request fails or the response is not parseable JSON, and the result
  list is then empty; a parsed payload is stored as the result unchanged, whatever its
  shape, with no record checked or dropped.
\<close>

theorem aid_response_passthrough:
  "trim (financialAidQuery s) \<noteq> [] \<longrightarrow>
     (financialAidError (handleFindFinancialAid s response) \<noteq> []
        \<longleftrightarrow> response = AidRequestFailed \<or> response = AidSyntaxError)
   \<and> (response = AidRequestFailed \<or> response = AidSyntaxError \<longrightarrow>
        financialAidInfo (handleFindFinancialAid s response) = JArray []
        \<and> financialAidError (handleFindFinancialAid s response) = aidFailedMessage)
   \<and> (\<forall>aidOptions. response = AidParsed aidOptions \<longrightarrow>
        financialAidInfo (handleFindFinancialAid s response) = aidOptions)"
  using aidFailedMessage_nonempty
  by (cases response) (simp_all add: handleFindFinancialAid_def)

theorem aid_response_passthrough_witness:
  "trim (financialAidQuery exampleQuery) \<noteq> []
   \<and> financialAidInfo (handleFindFinancialAid exampleQuery AidSyntaxError) = JArray []
   \<and> financialAidError (handleFindFinancialAid exampleQuery AidSyntaxError) = aidFailedMessage
   \<and> financialAidInfo (handleFindFinancialAid exampleQuery (AidParsed (JArray [JNull])))
       = JArray [JNull]
   \<and> financialAidError (handleFindFinancialAid exampleQuery (AidParsed (JArray [JNull]))) = []"
proof -
  have q: "trim (financialAidQuery exampleQuery) \<noteq> []"
    by (simp add: exampleQuery_def trim_def isWhiteSpace_def)
  from aid_response_passthrough [of exampleQuery AidSyntaxError, THEN mp, OF q]
  have 1: "financialAidInfo (handleFindFinancialAid exampleQuery AidSyntaxError) = JArray []"
    and 2: "financialAidError (handleFindFinancialAid exampleQuery AidSyntaxError) = aidFailedMessage"
    by simp_all
  from aid_response_passthrough [of exampleQuery "AidParsed (JArray [JNull])", THEN mp, OF q]
  have 3: "financialAidInfo (handleFindFinancialAid exampleQuery (AidParsed (JArray [JNull])))
       = JArray [JNull]"
    and 4: "financialAidError (handleFindFinancialAid exampleQuery (AidParsed (JArray [JNull]))) = []"
    by simp_all
  from q 1 2 3 4 show ?thesis by (intro conjI)
qed

section \<open>The block that the match selects\<close>

lemma startsWithCI_Nil [simp]: "startsWithCI [] s"
  by (simp add: startsWithCI_def)

lemma startsWithCI_Cons_Nil [simp]: "\<not> startsWithCI (c # ls) []"
  by (simp add: startsWithCI_def)

lemma startsWithCI_Cons_Cons [simp]:
  "startsWithCI (c # ls) (x # xs) \<longleftrightarrow> canonicalize x = canonicalize c \<and> startsWithCI ls xs"
  by (auto simp: startsWithCI_def)

lemma matchHere_literals:
  "matchHere (map Lit ls @ ts) s =
     (if startsWithCI ls s
      then map_option ((@) (take (length ls) s)) (matchHere ts (drop (length ls) s))
      else None)"
proof (induction ls arbitrary: s)
  case Nil
  show ?case by (cases "matchHere ts s") simp_all
next
  case (Cons c ls)
  show ?case
  proof (cases s)
    case Nil
    then show ?thesis by simp
  next
    case (Cons x xs)
    then show ?thesis using Cons.IH [of xs]
      by (simp add: option.map_comp comp_def)
  qed
qed

lemma canonicalize_dash: "canonicalize c = CHR ''-'' \<longleftrightarrow> c = CHR ''-''"
proof
  assume a: "canonicalize c = CHR ''-''"
  show "c = CHR ''-''"
  proof (cases "map_of (zip lowerLetters upperLetters) c")
    case None
    with a show ?thesis by (simp add: canonicalize_def)
  next
    case (Some u)
    then have "u \<in> set upperLetters" by (auto dest!: map_of_SomeD set_zip_rightD)
    moreover from a Some have "u = CHR ''-''" by (simp add: canonicalize_def)
    ultimately show ?thesis by (simp add: upperLetters_def)
  qed
next
  assume "c = CHR ''-''"
  then show "canonicalize c = CHR ''-''"
    by (simp add: canonicalize_def lowerLetters_def upperLetters_def)
qed

lemma canonicalize_dash_self [simp]: "canonicalize CHR ''-'' = CHR ''-''"
  by (simp add: canonicalize_dash)

lemma sentinel_nonempty: "sentinel \<noteq> []"
  by (simp add: sentinel_def)

lemma sentinel_not_in_butlast: "\<not> includesStr (butlast sentinel) sentinel"
  by (simp add: sentinel_def)

lemma startsWithCI_dashes: "startsWithCI ''---'' s \<longleftrightarrow> prefix ''---'' s"
proof (cases s)
  case Nil then show ?thesis by simp
next
  case (Cons a s1)
  show ?thesis
  proof (cases s1)
    case Nil with Cons show ?thesis by (auto simp: canonicalize_dash)
  next
    case (Cons b s2)
    show ?thesis
    proof (cases s2)
      case Nil with \<open>s = a # s1\<close> \<open>s1 = b # s2\<close> show ?thesis by (auto simp: canonicalize_dash)
    next
      case (Cons c s3)
      with \<open>s = a # s1\<close> \<open>s1 = b # s2\<close> show ?thesis by (auto simp: canonicalize_dash)
    qed
  qed
qed

lemma startsWithCI_sentinel: "startsWithCI sentinel s \<longleftrightarrow> prefix sentinel s"
  unfolding sentinel_def by (rule startsWithCI_dashes)

lemma matchHere_sentinel:
  "matchHere (map Lit sentinel) s = (if prefix sentinel s then Some sentinel else None)"
proof -
  have "matchHere (map Lit sentinel @ []) s =
     (if startsWithCI sentinel s then map_option ((@) (take (length sentinel) s)) (Some []) else None)"
    by (subst matchHere_literals) simp
  moreover have "take (length sentinel) s = sentinel" if "prefix sentinel s"
    using that by (auto simp: prefix_def)
  ultimately show ?thesis by (auto simp: startsWithCI_sentinel)
qed

lemma matchHere_lazy_Nil: "matchHere (LazyAnyStar # map Lit sentinel) [] = None"
  using matchHere_sentinel [of "[]"] sentinel_nonempty by simp

lemma matchHere_lazy_Cons:
  "matchHere (LazyAnyStar # map Lit sentinel) (x # xs) =
     (if prefix sentinel (x # xs) then Some sentinel
      else map_option ((#) x) (matchHere (LazyAnyStar # map Lit sentinel) xs))"
  using matchHere_sentinel [of "x # xs"] by simp

lemma includesStr_Nil: "includesStr [] sentinel = False"
  using sentinel_nonempty by simp

lemma matchHere_lazy_none:
  "\<not> includesStr s sentinel \<Longrightarrow> matchHere (LazyAnyStar # map Lit sentinel) s = None"
proof (induction s)
  case Nil
  show ?case by (rule matchHere_lazy_Nil)
next
  case (Cons x xs)
  then show ?case by (simp only: matchHere_lazy_Cons includesStr.simps) simp
qed

lemma matchHere_lazy_some:
  "includesStr s sentinel \<Longrightarrow>
   \<exists>mid. matchHere (LazyAnyStar # map Lit sentinel) s = Some (mid @ sentinel)
         \<and> prefix (mid @ sentinel) s \<and> \<not> includesStr (mid @ butlast sentinel) sentinel"
proof (induction s)
  case Nil
  then show ?case by (simp only: includesStr_Nil)
next
  case (Cons x xs)
  show ?case
  proof (cases "prefix sentinel (x # xs)")
    case True
    then have "matchHere (LazyAnyStar # map Lit sentinel) (x # xs) = Some ([] @ sentinel)"
      by (simp only: matchHere_lazy_Cons) simp
    moreover have "prefix ([] @ sentinel) (x # xs)" using True by simp
    moreover have "\<not> includesStr ([] @ butlast sentinel) sentinel"
      using sentinel_not_in_butlast by simp
    ultimately show ?thesis by blast
  next
    case False
    with Cons.prems have "includesStr xs sentinel" by (simp only: includesStr.simps) simp
    from Cons.IH [OF this] obtain mid where
      m: "matchHere (LazyAnyStar # map Lit sentinel) xs = Some (mid @ sentinel)"
      and p: "prefix (mid @ sentinel) xs" and n: "\<not> includesStr (mid @ butlast sentinel) sentinel"
      by blast
    have 1: "matchHere (LazyAnyStar # map Lit sentinel) (x # xs) = Some ((x # mid) @ sentinel)"
      using False m by (simp only: matchHere_lazy_Cons) simp
    have 2: "prefix ((x # mid) @ sentinel) (x # xs)" using p by simp
    have "sentinel = butlast sentinel @ [last sentinel]"
      using sentinel_nonempty by simp
    then have "mid @ sentinel = (mid @ butlast sentinel) @ [last sentinel]"
      by (metis append.assoc)
    with p have "prefix (mid @ butlast sentinel) xs"
      using append_prefixD by metis
    then have "prefix (x # mid @ butlast sentinel) (x # xs)" by simp
    then have "\<not> prefix sentinel (x # mid @ butlast sentinel)"
      using False prefix_order.trans by blast
    then have 3: "\<not> includesStr ((x # mid) @ butlast sentinel) sentinel"
      using n by (simp only: append_Cons includesStr.simps) simp
    from 1 2 3 show ?thesis by blast
  qed
qed

lemma matchHere_block:
  "matchHere (blockTokens hospitalName) s =
     (if startsWithCI (header hospitalName) s
      then map_option ((@) (take (length (header hospitalName)) s))
             (matchHere (LazyAnyStar # map Lit sentinel) (drop (length (header hospitalName)) s))
      else None)"
  unfolding blockTokens_def by (rule matchHere_literals)

lemma matchHere_block_none:
  "\<not> blockStartsAt hospitalName s \<Longrightarrow> matchHere (blockTokens hospitalName) s = None"
  unfolding matchHere_block blockStartsAt_def
  by (auto simp: matchHere_lazy_none simp del: matchHere.simps)

lemma matchHere_block_some:
  assumes "blockStartsAt hospitalName s"
  shows "\<exists>mid. matchHere (blockTokens hospitalName) s
             = Some (take (length (header hospitalName)) s @ mid @ sentinel)
         \<and> prefix (mid @ sentinel) (drop (length (header hospitalName)) s)
         \<and> \<not> includesStr (mid @ butlast sentinel) sentinel"
proof -
  from assms have a: "startsWithCI (header hospitalName) s"
    and b: "includesStr (drop (length (header hospitalName)) s) sentinel"
    by (simp_all add: blockStartsAt_def)
  from matchHere_lazy_some [OF b] obtain mid where
    "matchHere (LazyAnyStar # map Lit sentinel) (drop (length (header hospitalName)) s)
       = Some (mid @ sentinel)"
    "prefix (mid @ sentinel) (drop (length (header hospitalName)) s)"
    "\<not> includesStr (mid @ butlast sentinel) sentinel"
    by blast
  with a show ?thesis unfolding matchHere_block by (auto simp del: matchHere.simps)
qed

lemma regexSearch_none:
  "(\<forall>i\<le>length s. matchHere ts (drop i s) = None) \<Longrightarrow> regexSearch ts s = None"
proof (induction s)
  case Nil
  then show ?case by simp
next
  case (Cons x xs)
  from Cons.prems have 0: "matchHere ts (x # xs) = None" by (metis drop0 le0)
  have "matchHere ts (drop i xs) = None" if "i \<le> length xs" for i
    using Cons.prems [rule_format, of "Suc i"] that by simp
  with Cons.IH have "regexSearch ts xs = None" by blast
  with 0 show ?case by simp
qed

lemma regexSearch_first:
  "i \<le> length s \<Longrightarrow> matchHere ts (drop i s) = Some m \<Longrightarrow>
   (\<forall>j<i. matchHere ts (drop j s) = None) \<Longrightarrow> regexSearch ts s = Some m"
proof (induction s arbitrary: i)
  case Nil
  then show ?case by simp
next
  case (Cons x xs)
  show ?case
  proof (cases i)
    case 0
    with Cons.prems show ?thesis by simp
  next
    case (Suc i')
    with Cons.prems have 0: "matchHere ts (x # xs) = None" by (metis drop0 zero_less_Suc)
    have "matchHere ts (drop j xs) = None" if "j < i'" for j
      using Cons.prems(3) [rule_format, of "Suc j"] that Suc by simp
    with Cons.IH [of i'] Cons.prems Suc have "regexSearch ts xs = Some m" by simp
    with 0 show ?thesis by simp
  qed
qed

text \<open>
  What the match selects.  When no position of the narrative starts a block of the
  hospital, there is no match.  Otherwise, with \<open>i\<close> the first position that starts one,
  the match is the header and name as written at \<open>i\<close>, followed by the text up to and
  including the first sentinel after them.  Whatever follows the name belongs to that
  text, the rest of a longer header too.
\<close>

lemma hospital_block_selected:
  "((\<forall>i\<le>length narrative. \<not> blockStartsAt hospitalName (drop i narrative)) \<longrightarrow>
      matchHospitalBlock hospitalName narrative = Some None)
   \<and> (i \<le> length narrative \<and> blockStartsAt hospitalName (drop i narrative)
        \<and> (\<forall>j<i. \<not> blockStartsAt hospitalName (drop j narrative)) \<longrightarrow>
      (\<exists>mid. matchHospitalBlock hospitalName narrative
                = Some (Some (take (length (header hospitalName)) (drop i narrative) @ mid @ sentinel))
            \<and> prefix (mid @ sentinel) (drop (length (header hospitalName)) (drop i narrative))
            \<and> \<not> includesStr (mid @ butlast sentinel) sentinel))"
proof (intro conjI impI)
  assume "\<forall>i\<le>length narrative. \<not> blockStartsAt hospitalName (drop i narrative)"
  then have "\<forall>i\<le>length narrative. matchHere (blockTokens hospitalName) (drop i narrative) = None"
    by (simp add: matchHere_block_none)
  then show "matchHospitalBlock hospitalName narrative = Some None"
    unfolding matchHospitalBlock_eq by (simp add: regexSearch_none)
next
  assume a: "i \<le> length narrative \<and> blockStartsAt hospitalName (drop i narrative)
        \<and> (\<forall>j<i. \<not> blockStartsAt hospitalName (drop j narrative))"
  then have e: "\<forall>j<i. matchHere (blockTokens hospitalName) (drop j narrative) = None"
    by (simp add: matchHere_block_none)
  from a matchHere_block_some [of hospitalName "drop i narrative"] obtain mid where
    m: "matchHere (blockTokens hospitalName) (drop i narrative)
         = Some (take (length (header hospitalName)) (drop i narrative) @ mid @ sentinel)"
    and p: "prefix (mid @ sentinel) (drop (length (header hospitalName)) (drop i narrative))"
    and n: "\<not> includesStr (mid @ butlast sentinel) sentinel"
    by blast
  from a m e have "regexSearch (blockTokens hospitalName) narrative
      = Some (take (length (header hospitalName)) (drop i narrative) @ mid @ sentinel)"
    by (intro regexSearch_first [of i]) simp_all
  with p n show "\<exists>mid. matchHospitalBlock hospitalName narrative
                = Some (Some (take (length (header hospitalName)) (drop i narrative) @ mid @ sentinel))
            \<and> prefix (mid @ sentinel) (drop (length (header hospitalName)) (drop i narrative))
            \<and> \<not> includesStr (mid @ butlast sentinel) sentinel"
    unfolding matchHospitalBlock_eq by blast
qed

subsection \<open>A header that goes on after the name\<close>

lemma collision_block:
  "regexSearch (blockTokens ''Alpha'')
     ''HOSPITAL: Alphabet\<newline>CONTACT: 1\<newline>---\<newline>HOSPITAL: Alpha\<newline>CONTACT: 2\<newline>---''
   = Some ''HOSPITAL: Alphabet\<newline>CONTACT: 1\<newline>---''"
  by code_simp

lemma collision_contact:
  "fieldOf ''CONTACT: '' (Some ''HOSPITAL: Alphabet\<newline>CONTACT: 1\<newline>---'') = ''1''"
  by code_simp

lemma collision_kept: "\<not> needsContactFallback ''1''"
  by code_simp

text \<open>
  Claim C3.  The block of a hit is the first one whose header names exactly the hit; a
  header that goes on after the name is no match.  For the hit Alpha and a narrative
  with a block of Alphabet before the block of Alpha, the match is the block of
  Alphabet, and the contact shown for Alpha is the one of Alphabet.
\<close>

theorem prefix_header_selected:
  "matchHospitalBlock ''Alpha''
     ''HOSPITAL: Alphabet\<newline>CONTACT: 1\<newline>---\<newline>HOSPITAL: Alpha\<newline>CONTACT: 2\<newline>---''
   = Some (Some ''HOSPITAL: Alphabet\<newline>CONTACT: 1\<newline>---'')
   \<and> contact (hospitals (reconcile [\<lparr>name = ''Alpha'', uri = ''u1''\<rparr>]
        (Some ''HOSPITAL: Alphabet\<newline>CONTACT: 1\<newline>---\<newline>HOSPITAL: Alpha\<newline>CONTACT: 2\<newline>---'')
        (constantRatings 4)) ! 0) = ''1''"
proof -
  let ?t = "''HOSPITAL: Alphabet\<newline>CONTACT: 1\<newline>---\<newline>HOSPITAL: Alpha\<newline>CONTACT: 2\<newline>---''"
  let ?hits = "[\<lparr>name = ''Alpha'', uri = ''u1''\<rparr>]"
  have 1: "matchHospitalBlock ''Alpha'' ?t = Some (Some ''HOSPITAL: Alphabet\<newline>CONTACT: 1\<newline>---'')"
    unfolding matchHospitalBlock_eq collision_block ..
  have ne: "?hits \<noteq> []" by simp
  from reconcile_nonempty [OF ne, of ?t "constantRatings 4"] obtain hs k' where
    h: "hospitals (reconcile ?hits (Some ?t) (constantRatings 4)) = hs"
    and n: "hs ! 0 = fst (enrich 0 (?hits ! 0) (regexSearch (blockTokens (name (?hits ! 0))) ?t)
                (constantRatings 4 k'))"
    by fastforce
  have "regexSearch (blockTokens (name (?hits ! 0))) ?t
        = Some ''HOSPITAL: Alphabet\<newline>CONTACT: 1\<newline>---''"
    using collision_block by simp
  with n have "contact (hs ! 0) = ''1''"
    by (simp only: enrich_fields collision_contact collision_kept if_False)
  with h 1 show ?thesis by simp
qed

subsection \<open>The example of a narrative with one block\<close>

lemma single_block:
  "regexSearch (blockTokens ''Alpha'')
     ''HOSPITAL: Alpha\<newline>CONTACT: 555-1234\<newline>BEST DOCTOR: Dr. Test\<newline>RATING: 4.2/5 stars\<newline>---''
   = Some ''HOSPITAL: Alpha\<newline>CONTACT: 555-1234\<newline>BEST DOCTOR: Dr. Test\<newline>RATING: 4.2/5 stars\<newline>---''"
  by code_simp

lemma single_fields:
  "fieldOf ''CONTACT: '' (Some ''HOSPITAL: Alpha\<newline>CONTACT: 555-1234\<newline>BEST DOCTOR: Dr. Test\<newline>RATING: 4.2/5 stars\<newline>---'') = ''555-1234''"
  "fieldOf ''BEST DOCTOR: '' (Some ''HOSPITAL: Alpha\<newline>CONTACT: 555-1234\<newline>BEST DOCTOR: Dr. Test\<newline>RATING: 4.2/5 stars\<newline>---'') = ''Dr. Test''"
  "fieldOf ''RATING: '' (Some ''HOSPITAL: Alpha\<newline>CONTACT: 555-1234\<newline>BEST DOCTOR: Dr. Test\<newline>RATING: 4.2/5 stars\<newline>---'') = ''4.2/5 stars''"
  by code_simp+

lemma single_kept:
  "\<not> needsContactFallback ''555-1234''" "\<not> needsDoctorFallback ''Dr. Test''"
  "\<not> needsRatingFallback ''4.2/5 stars''"
  by code_simp+

lemma reconcile_example:
  "hospitals (reconcile [\<lparr>name = ''Alpha'', uri = ''u1''\<rparr>]
     (Some ''HOSPITAL: Alpha\<newline>CONTACT: 555-1234\<newline>BEST DOCTOR: Dr. Test\<newline>RATING: 4.2/5 stars\<newline>---'')
     rnd)
   = [\<lparr>name = ''Alpha'', uri = ''u1'', bestDoctor = ''Dr. Test'', rating = ''4.2/5 stars'',
       contact = ''555-1234''\<rparr>]"
  by (simp add: reconcile_def matchResponse_text matchHospitalBlock_eq single_block enrich_def single_fields
        single_kept del: regexSearch.simps)

end
